theory Spec2Isabelle
  imports
    Complex_Main
    "HOL-Library.AList"
    "HOL-Library.Char_ord"
    "HOL-Library.List_Lexorder"
begin

section \<open>Python values, errors and dictionaries\<close>

text \<open>
  The module \<^verbatim>\<open>utility_fs_train.py\<close> holds five functions: \<^verbatim>\<open>get_input_args\<close>,
  \<^verbatim>\<open>print_input_args\<close>, \<^verbatim>\<open>data_subdirs\<close>, \<^verbatim>\<open>data_transforms\<close> and \<^verbatim>\<open>data_loaders\<close>.
  Every exception and every process exit of the Python code is a value of \<open>py_error\<close>; a
  function that can raise returns \<open>py_error + 'a\<close> with \<open>Inl\<close> for the error.
\<close>

datatype py_error =
    SystemExit nat
  | KeyError string
  | AttributeError string
  | FileNotFoundError string
  | RuntimeError string

text \<open>Sequencing of two steps the first of which may raise.\<close>

definition and_then :: "py_error + 'a \<Rightarrow> ('a \<Rightarrow> py_error + 'b) \<Rightarrow> py_error + 'b" where
  "and_then m f = (case m of Inl e \<Rightarrow> Inl e | Inr x \<Rightarrow> f x)"

text \<open>
  A Python \<^verbatim>\<open>dict\<close> keeps its keys in insertion order and replaces the value of a key
  that is already there in place: an association list written by \<open>AList.update\<close>.
  \<^verbatim>\<open>d[k]\<close> raises \<^verbatim>\<open>KeyError\<close> on a missing key.
\<close>

type_synonym 'v dict = "(string \<times> 'v) list"

definition setitem :: "string \<Rightarrow> 'v \<Rightarrow> 'v dict \<Rightarrow> 'v dict" where
  "setitem k v d = AList.update k v d"

definition getitem :: "'v dict \<Rightarrow> string \<Rightarrow> py_error + 'v" where
  "getitem d k = (case map_of d k of None \<Rightarrow> Inl (KeyError k) | Some v \<Rightarrow> Inr v)"

definition keys :: "'v dict \<Rightarrow> string list" where
  "keys d = map fst d"

section \<open>data_subdirs\<close>

text \<open>
  \<^verbatim>\<open>
  subdirs_dict = dict()
  subdirs_dict['train'] = data_dir + 'train/'
  subdirs_dict['valid'] = data_dir + 'valid/'
  subdirs_dict['test'] = data_dir + 'test/'
  return subdirs_dict
  \<close>
\<close>

definition data_subdirs :: "string \<Rightarrow> string dict" where
  "data_subdirs data_dir =
     (let subdirs_dict = [];
          subdirs_dict = setitem ''train'' (data_dir @ ''train/'') subdirs_dict;
          subdirs_dict = setitem ''valid'' (data_dir @ ''valid/'') subdirs_dict;
          subdirs_dict = setitem ''test'' (data_dir @ ''test/'') subdirs_dict
      in subdirs_dict)"

section \<open>data_transforms\<close>

text \<open>
  The steps of \<^verbatim>\<open>torchvision.transforms\<close> that the module uses, each with the arguments
  the source passes. A float literal of the source is the rational number its decimal
  text denotes. \<^verbatim>\<open>transforms.Compose\<close> wraps the list of steps.
\<close>

datatype transform =
    RandomRotation int
  | RandomResizedCrop nat
  | RandomHorizontalFlip
  | ToTensor
  | Normalize "rat list" "rat list"
  | Resize nat
  | CenterCrop nat

datatype pipeline = Compose "transform list"

fun steps :: "pipeline \<Rightarrow> transform list" where
  "steps (Compose ts) = ts"

definition data_transforms :: "pipeline dict" where
  "data_transforms =
     (let transforms_dict = [];
          transforms_dict = setitem ''train'' (Compose [
              RandomRotation 30,
              RandomResizedCrop 224,
              RandomHorizontalFlip,
              ToTensor,
              Normalize [0.485, 0.456, 0.406]
                        [0.229, 0.224, 0.225]
            ]) transforms_dict;
          transforms_dict = setitem ''valid'' (Compose [
              Resize 256,
              CenterCrop 224,
              ToTensor,
              Normalize [0.485, 0.456, 0.406]
                        [0.229, 0.224, 0.225]
            ]) transforms_dict;
          transforms_dict = setitem ''test'' (Compose [
              Resize 256,
              CenterCrop 224,
              ToTensor,
              Normalize [0.485, 0.456, 0.406]
                        [0.229, 0.224, 0.225]
            ]) transforms_dict
      in transforms_dict)"

text \<open>The steps whose result depends on a random draw (the \<^verbatim>\<open>Random*\<close> classes).\<close>

fun randomized :: "transform \<Rightarrow> bool" where
  "randomized (RandomRotation _) = True"
| "randomized (RandomResizedCrop _) = True"
| "randomized RandomHorizontalFlip = True"
| "randomized _ = False"

section \<open>data_loaders\<close>

subsection \<open>The library's dataset and loader\<close>

text \<open>
  \<^verbatim>\<open>datasets.ImageFolder\<close> and \<^verbatim>\<open>torch.utils.data.DataLoader\<close> belong to torchvision and
  PyTorch, not to this module. They are modelled as far as the module depends on them,
  after torchvision 0.2.1 (the release of the module's revision date).

  The file system is a parameter \<open>fs\<close>: for the path of a directory that exists,
  \<open>fs path\<close> is the listing of its subdirectories, each with the names of the image
  files directly beneath it, in the order the operating system lists them; for any other
  path it is \<open>None\<close>. \<^verbatim>\<open>os.listdir\<close> raises on a missing directory.
\<close>

type_synonym filesystem = "string \<Rightarrow> (string \<times> string list) list option"

record dataset =
  root_path :: string
  transform :: pipeline
  classes :: "string list"
  class_to_idx :: "nat dict"
  samples :: "(string \<times> nat) list"

text \<open>
  \<^verbatim>\<open>
  classes = [d for d in os.listdir(dir) if os.path.isdir(os.path.join(dir, d))]
  classes.sort()
  class_to_idx = {classes[i]: i for i in range(len(classes))}
  \<close>
\<close>

definition find_classes :: "filesystem \<Rightarrow> string \<Rightarrow> py_error + (string list \<times> nat dict)" where
  "find_classes fs dir =
     (case fs dir of
        None \<Rightarrow> Inl (FileNotFoundError dir)
      | Some entries \<Rightarrow>
          (let cls = sort (map fst entries);
               c2i = fold (\<lambda>i d. setitem (cls ! i) i d) [0..<length cls] []
           in Inr (cls, c2i)))"

text \<open>\<^verbatim>\<open>os.path.join\<close> of a directory and a name that holds no separator.\<close>

definition path_join :: "string \<Rightarrow> string \<Rightarrow> string" where
  "path_join a b = (if a = [] \<or> last a = CHR ''/'' then a @ b else a @ ''/'' @ b)"

text \<open>
  \<^verbatim>\<open>make_dataset\<close> walks the class folders in sorted order, and the file names of a
  folder in sorted order (\<^verbatim>\<open>for fname in sorted(fnames)\<close>), and pairs every image file
  with the index of its class.
\<close>

definition make_dataset :: "filesystem \<Rightarrow> string \<Rightarrow> nat dict \<Rightarrow> (string \<times> nat) list" where
  "make_dataset fs dir c2i =
     (case fs dir of
        None \<Rightarrow> []
      | Some entries \<Rightarrow>
          concat (map (\<lambda>target.
              case (map_of entries target, map_of c2i target) of
                (Some fnames, Some i) \<Rightarrow>
                  map (\<lambda>fname. (path_join (path_join dir target) fname, i)) (sort fnames)
              | _ \<Rightarrow> [])
            (sort (map fst entries))))"

text \<open>
  \<^verbatim>\<open>
  classes, class_to_idx = find_classes(root)
  samples = make_dataset(root, class_to_idx, extensions)
  if len(samples) == 0:
      raise(RuntimeError("Found 0 files in subfolders of: " + root ...))
  \<close>
  The transform is stored, not applied: images are transformed when they are read.
\<close>

definition ImageFolder :: "filesystem \<Rightarrow> string \<Rightarrow> pipeline \<Rightarrow> py_error + dataset" where
  "ImageFolder fs dir t =
     and_then (find_classes fs dir) (\<lambda>(cls, c2i).
       (let smp = make_dataset fs dir c2i
        in if length smp = 0 then Inl (RuntimeError dir)
           else Inr \<lparr>root_path = dir, transform = t, classes = cls,
                     class_to_idx = c2i, samples = smp\<rparr>))"

record dataloader =
  dl_dataset :: dataset
  batch_size :: nat
  shuffle :: bool

definition DataLoader :: "dataset \<Rightarrow> nat \<Rightarrow> bool \<Rightarrow> dataloader" where
  "DataLoader ds bs sh = \<lparr>dl_dataset = ds, batch_size = bs, shuffle = sh\<rparr>"

subsection \<open>The function\<close>

text \<open>
  The three datasets are built first, in the order train, valid, test; the class map is
  read from the training dataset; then the three loaders are built. Each of the three
  \<^verbatim>\<open>DataLoader\<close> calls of the source is given \<^verbatim>\<open>datasets_dict['train']\<close>.
\<close>

definition data_loaders ::
  "filesystem \<Rightarrow> string dict \<Rightarrow> pipeline dict \<Rightarrow> py_error + (dataloader dict \<times> nat dict)" where
  "data_loaders fs subdirs_dict transforms_dict =
     (let datasets_dict = [] in
      and_then (getitem subdirs_dict ''train'') (\<lambda>dir_train.
      and_then (getitem transforms_dict ''train'') (\<lambda>t_train.
      and_then (ImageFolder fs dir_train t_train) (\<lambda>ds.
      let datasets_dict = setitem ''train'' ds datasets_dict in
      and_then (getitem subdirs_dict ''valid'') (\<lambda>dir_valid.
      and_then (getitem transforms_dict ''valid'') (\<lambda>t_valid.
      and_then (ImageFolder fs dir_valid t_valid) (\<lambda>ds.
      let datasets_dict = setitem ''valid'' ds datasets_dict in
      and_then (getitem subdirs_dict ''test'') (\<lambda>dir_test.
      and_then (getitem transforms_dict ''test'') (\<lambda>t_test.
      and_then (ImageFolder fs dir_test t_test) (\<lambda>ds.
      let datasets_dict = setitem ''test'' ds datasets_dict in
      and_then (getitem datasets_dict ''train'') (\<lambda>ds.
      let class_to_idx_dict = class_to_idx ds;
          dataloaders_dict = [] in
      and_then (getitem datasets_dict ''train'') (\<lambda>ds.
      let dataloaders_dict = setitem ''train'' (DataLoader ds 32 True) dataloaders_dict in
      and_then (getitem datasets_dict ''train'') (\<lambda>ds.
      let dataloaders_dict = setitem ''valid'' (DataLoader ds 32 True) dataloaders_dict in
      and_then (getitem datasets_dict ''train'') (\<lambda>ds.
      let dataloaders_dict = setitem ''test'' (DataLoader ds 32 True) dataloaders_dict in
      Inr (dataloaders_dict, class_to_idx_dict)))))))))))))))"

subsection \<open>Example directory trees\<close>

text \<open>
  Two concrete trees for evaluating the functions: \<open>flowers_fs\<close> has the three split
  directories, with different classes under \<^verbatim>\<open>valid/\<close> than under \<^verbatim>\<open>train/\<close>;
  \<open>no_valid_fs\<close> lacks the \<^verbatim>\<open>valid/\<close> directory.
\<close>

definition flowers_fs :: filesystem where
  "flowers_fs = map_of [
     (''flowers/train/'', [(''roses'', [''r1.jpg'', ''r2.jpg'']), (''daisy'', [''d1.jpg''])]),
     (''flowers/valid/'', [(''tulip'', [''t1.jpg''])]),
     (''flowers/test/'', [(''daisy'', [''d2.jpg'']), (''roses'', [''r3.jpg''])])]"

definition no_valid_fs :: filesystem where
  "no_valid_fs = map_of [
     (''flowers/train/'', [(''roses'', [''r1.jpg'', ''r2.jpg'']), (''daisy'', [''d1.jpg''])]),
     (''flowers/test/'', [(''daisy'', [''d2.jpg'']), (''roses'', [''r3.jpg''])])]"

section \<open>get_input_args and print_input_args\<close>

subsection \<open>Values and conversions\<close>

text \<open>
  \<^verbatim>\<open>get_input_args\<close> declares seven arguments on an \<^verbatim>\<open>argparse.ArgumentParser\<close> and
  returns \<^verbatim>\<open>parser.parse_args()\<close>. The command line \<^verbatim>\<open>sys.argv[1:]\<close> is the parameter
  \<open>argv\<close>; the result is the namespace, a dictionary from attribute names to values,
  or the exit of the process (\<^verbatim>\<open>SystemExit 2\<close> for a usage error, \<^verbatim>\<open>SystemExit 0\<close> after
  printing the help).

  A value stored in the namespace is \<^verbatim>\<open>None\<close>, a string, a float, an integer, a
  boolean, or the empty list (the only list this parser can store, see \<open>get_values\<close>
  below). Floats are not interpreted: their type \<open>'f\<close> and the operations on them are
  parameters, collected in \<open>builtins\<close> with the conversion \<^verbatim>\<open>int(s)\<close>:
  \<open>py_float\<close> is \<^verbatim>\<open>float(s)\<close> and \<open>py_int\<close> is \<^verbatim>\<open>int(s)\<close>, with \<open>None\<close> where Python raises
  \<^verbatim>\<open>ValueError\<close>; \<open>float_literal\<close> is the float that a decimal literal of the source
  denotes; \<open>float_str\<close> is \<^verbatim>\<open>str(x)\<close> of a float.

  The module runs on whatever release of Python is installed, and \<^verbatim>\<open>argparse\<close> has
  changed between releases in two places that a command line of this parser reaches.
  Both are parameters of the same record. \<open>strips_dashes\<close> tells whether \<^verbatim>\<open>_get_values\<close>
  removes the string \<^verbatim>\<open>--\<close> from the argument strings of an option: CPython 3.11.2 and
  the releases before it do, CPython 3.11.10 and 3.12.3 remove it for positionals only.
  \<open>glued_help_status\<close> is the exit status of the process when the help option comes
  with an explicit argument, from its option string, the separator and the explicit
  argument.
\<close>

datatype 'f py_value = PyNone | PyStr string | PyFloat 'f | PyInt int | PyBool bool | PyEmptyList

record 'f builtins =
  py_float :: "string \<Rightarrow> 'f option"
  py_int :: "string \<Rightarrow> int option"
  float_literal :: "rat \<Rightarrow> 'f"
  float_str :: "'f \<Rightarrow> string"
  strips_dashes :: bool
  glued_help_status :: "string \<Rightarrow> string option \<Rightarrow> string \<Rightarrow> nat"

text \<open>
  The \<^verbatim>\<open>type=\<close> keyword of \<^verbatim>\<open>add_argument\<close> names the function applied to the argument
  string. \<^verbatim>\<open>bool(s)\<close> of a string is true exactly when the string is not empty.
\<close>

datatype py_type = type_str | type_float | type_int | type_bool

definition convert :: "'f builtins \<Rightarrow> py_type \<Rightarrow> string \<Rightarrow> 'f py_value option" where
  "convert b ty s =
     (case ty of
        type_str \<Rightarrow> Some (PyStr s)
      | type_float \<Rightarrow> map_option PyFloat (py_float b s)
      | type_int \<Rightarrow> map_option PyInt (py_int b s)
      | type_bool \<Rightarrow> Some (PyBool (s \<noteq> [])))"

subsection \<open>The argument parser\<close>

text \<open>
  \<^verbatim>\<open>argparse\<close> is Python's library, not this module's code. Its \<^verbatim>\<open>parse_args\<close> is
  modelled after CPython 3.11 (the releases 3.11.2 and 3.11.10, which differ in the two
  places named above) for parsers like this one: every argument is declared by
  one name (a positional name, or one long option string), takes exactly one argument
  string (\<^verbatim>\<open>nargs=None\<close>, action \<^verbatim>\<open>store\<close>), there is at most one positional, and the only
  other options are the automatic \<^verbatim>\<open>-h\<close> and \<^verbatim>\<open>--help\<close>. Argument strings are strings of
  8-bit characters.
\<close>

record 'f argument =
  arg_name :: string
  arg_type :: py_type
  arg_default :: "'f py_value"

definition add_argument ::
  "'f argument list \<Rightarrow> string \<Rightarrow> py_type \<Rightarrow> 'f py_value \<Rightarrow> 'f argument list" where
  "add_argument parser nm ty dflt =
     parser @ [\<lparr>arg_name = nm, arg_type = ty, arg_default = dflt\<rparr>]"

text \<open>
  A name that starts with \<^verbatim>\<open>-\<close> declares an optional, any other name a positional. The
  attribute written by an optional is its name without the leading dashes, with every
  further dash replaced by an underscore.
\<close>

definition is_optional :: "'f argument \<Rightarrow> bool" where
  "is_optional a = (case arg_name a of [] \<Rightarrow> False | c # _ \<Rightarrow> c = CHR ''-'')"

definition dest :: "'f argument \<Rightarrow> string" where
  "dest a =
     (if is_optional a
      then map (\<lambda>c. if c = CHR ''-'' then CHR ''_'' else c)
             (dropWhile (\<lambda>c. c = CHR ''-'') (arg_name a))
      else arg_name a)"

text \<open>
  The parser's table from option strings to actions, in the order of registration:
  the help action first.
\<close>

datatype 'f action = HelpAction | StoreAction "'f argument"

definition option_string_actions :: "'f argument list \<Rightarrow> (string \<times> 'f action) list" where
  "option_string_actions parser =
     (''-h'', HelpAction) # (''--help'', HelpAction) #
     map (\<lambda>a. (arg_name a, StoreAction a)) (filter is_optional parser)"

text \<open>
  \<^verbatim>\<open>_parse_optional\<close> classifies one argument string: \<open>None\<close> for a positional, or the
  tuple (action, option string, separator, explicit argument). The action is \<open>None\<close> for
  an option the parser does not know. \<open>partition_eq\<close> is \<^verbatim>\<open>str.partition('=')\<close>.
\<close>

type_synonym 'f option_tuple = "'f action option \<times> string \<times> string option \<times> string option"

definition startswith :: "string \<Rightarrow> string \<Rightarrow> bool" where
  "startswith s pre = (take (length pre) s = pre)"

definition partition_eq :: "string \<Rightarrow> string \<times> string \<times> string" where
  "partition_eq s =
     (takeWhile (\<lambda>c. c \<noteq> CHR ''='') s,
      if CHR ''='' \<in> set s then ''='' else [],
      drop 1 (dropWhile (\<lambda>c. c \<noteq> CHR ''='') s))"

text \<open>
  \<^verbatim>\<open>_get_option_tuples\<close>: the options a string abbreviates. A string that starts with
  two dashes matches every option string it is a prefix of (up to its \<^verbatim>\<open>=\<close>); a string
  with one dash matches a short option followed by its argument.
\<close>

definition get_option_tuples :: "'f argument list \<Rightarrow> string \<Rightarrow> 'f option_tuple list" where
  "get_option_tuples parser option_string =
     (case option_string of
        c0 # c1 # _ \<Rightarrow>
          if c1 = CHR ''-'' then
            (case partition_eq option_string of (option_prefix, sep, explicit_arg) \<Rightarrow>
               concat (map (\<lambda>(os, act).
                   if startswith os option_prefix
                   then [(Some act, os,
                          if sep = [] then None else Some sep,
                          if sep = [] then None else Some explicit_arg)]
                   else [])
                 (option_string_actions parser)))
          else
            (let short_option_prefix = take 2 option_string;
                 short_explicit_arg = drop 2 option_string
             in concat (map (\<lambda>(os, act).
                   if os = short_option_prefix
                   then [(Some act, os, Some [], Some short_explicit_arg)]
                   else if startswith os option_string
                   then [(Some act, os, None, None)]
                   else [])
                 (option_string_actions parser)))
      | _ \<Rightarrow> [])"

text \<open>
  \<^verbatim>\<open>_negative_number_matcher\<close>: a dash followed by one or more digits, or by digits
  (possibly none), a dot and one or more digits; one final newline is ignored.
\<close>

definition is_digit :: "char \<Rightarrow> bool" where
  "is_digit c = (c \<in> set ''0123456789'')"

definition negative_number :: "string \<Rightarrow> bool" where
  "negative_number s =
     (let body = (if s \<noteq> [] \<and> last s = CHR 0x0A then butlast s else s)
      in case body of
           [] \<Rightarrow> False
         | c # r \<Rightarrow>
             c = CHR ''-'' \<and>
             ((r \<noteq> [] \<and> list_all is_digit r) \<or>
              (case dropWhile is_digit r of
                 [] \<Rightarrow> False
               | d # ds \<Rightarrow> d = CHR ''.'' \<and> ds \<noteq> [] \<and> list_all is_digit ds)))"

definition parse_optional ::
  "'f argument list \<Rightarrow> string \<Rightarrow> py_error + 'f option_tuple option" where
  "parse_optional parser arg_string =
     (if arg_string = [] then Inr None
      else if hd arg_string \<noteq> CHR ''-'' then Inr None
      else case map_of (option_string_actions parser) arg_string of
        Some act \<Rightarrow> Inr (Some (Some act, arg_string, None, None))
      | None \<Rightarrow>
          if length arg_string = 1 then Inr None
          else case partition_eq arg_string of (option_string, sep, explicit_arg) \<Rightarrow>
            (case (if sep = [] then None else map_of (option_string_actions parser) option_string) of
               Some act \<Rightarrow> Inr (Some (Some act, option_string, Some sep, Some explicit_arg))
             | None \<Rightarrow>
                 (let option_tuples = get_option_tuples parser arg_string in
                  if length option_tuples > 1 then Inl (SystemExit 2)
                  else case option_tuples of
                    [option_tuple] \<Rightarrow> Inr (Some option_tuple)
                  | _ \<Rightarrow>
                      if negative_number arg_string then Inr None
                      else if CHR '' '' \<in> set arg_string then Inr None
                      else Inr (Some (None, arg_string, None, None)))))"

text \<open>
  The first loop of \<^verbatim>\<open>_parse_known_args\<close> builds the pattern of the command line: \<^verbatim>\<open>O\<close>
  for an option (kept with its tuple), \<^verbatim>\<open>A\<close> for an argument, \<^verbatim>\<open>-\<close> for the first \<^verbatim>\<open>--\<close>,
  after which every string is an argument. An ambiguous abbreviation exits here, before
  any action is taken.
\<close>

datatype 'f pattern = Arg | DashDash | Opt "'f option_tuple"

fun classify :: "'f argument list \<Rightarrow> string list \<Rightarrow> py_error + 'f pattern list" where
  "classify parser [] = Inr []"
| "classify parser (arg_string # rest) =
     (if arg_string = ''--'' then Inr (DashDash # map (\<lambda>_. Arg) rest)
      else case parse_optional parser arg_string of
        Inl e \<Rightarrow> Inl e
      | Inr option_tuple \<Rightarrow>
          (case classify parser rest of
             Inl e \<Rightarrow> Inl e
           | Inr pats \<Rightarrow>
               Inr ((case option_tuple of None \<Rightarrow> Arg | Some t \<Rightarrow> Opt t) # pats)))"

text \<open>
  The state of the second loop: the namespace, the positionals not yet consumed, the
  strings nobody consumed (\<^verbatim>\<open>extras\<close>), and the names of the actions taken.
\<close>

record 'f parse_state =
  namespace :: "'f py_value dict"
  positionals :: "'f argument list"
  extras :: "string list"
  seen_actions :: "string list"

text \<open>
  \<^verbatim>\<open>_get_values\<close> for the one argument string of a store action. The string is converted
  by the action's type, and a failed conversion is a usage error. Before that, a release
  that strips dashes (\<^verbatim>\<open>arg_strings.remove('--')\<close> for every action) removes the string
  \<^verbatim>\<open>--\<close> from the argument strings of an option: no string is left, and the value is
  the empty list, which no type converts. Only an explicit argument, as in \<^verbatim>\<open>--gpu=--\<close>,
  can be that string, since a \<^verbatim>\<open>--\<close> after the option is not an argument of it. For a
  positional every release removes a \<^verbatim>\<open>--\<close>; there the loop below has dropped it before
  the action is taken.
\<close>

definition get_values :: "'f builtins \<Rightarrow> 'f argument \<Rightarrow> string \<Rightarrow> 'f py_value option" where
  "get_values b a arg_string =
     (if is_optional a \<and> strips_dashes b \<and> arg_string = ''--'' then Some PyEmptyList
      else convert b (arg_type a) arg_string)"

definition take_action ::
  "'f builtins \<Rightarrow> 'f argument \<Rightarrow> string \<Rightarrow> 'f parse_state \<Rightarrow> py_error + 'f parse_state" where
  "take_action b a arg_string st =
     (case get_values b a arg_string of
        None \<Rightarrow> Inl (SystemExit 2)
      | Some v \<Rightarrow>
          Inr (st\<lparr>namespace := setitem (dest a) v (namespace st),
                  seen_actions := arg_name a # seen_actions st\<rparr>))"

text \<open>
  The help action takes no argument: alone it prints the help and the process exits
  with status 0. With an explicit argument the process exits as well, with the status
  that the release gives.
\<close>

definition help_exit :: "'f builtins \<Rightarrow> string \<Rightarrow> string option \<Rightarrow> string option \<Rightarrow> nat" where
  "help_exit b option_string sep explicit_arg =
     (case explicit_arg of
        None \<Rightarrow> 0
      | Some e \<Rightarrow> glued_help_status b option_string sep e)"

text \<open>
  CPython 3.11.10: characters glued to \<^verbatim>\<open>-h\<close> are read as further single-dash flags. The
  help is printed (exit status 0) unless one of them is a dash or a repeated \<^verbatim>\<open>h\<close> is
  followed by \<^verbatim>\<open>=\<close> (exit status 2); a character that is no flag is left for the
  check of unrecognized arguments, which the help action never reaches. An explicit
  argument given with \<^verbatim>\<open>=\<close> is an error.
\<close>

fun short_flags :: "string \<Rightarrow> nat" where
  "short_flags [] = 0"
| "short_flags (c # cs) =
     (if c = CHR ''-'' then 2
      else if c = CHR ''h'' then
        (case cs of
           [] \<Rightarrow> 0
         | c' # _ \<Rightarrow> if c' = CHR ''='' then 2 else short_flags cs)
      else 0)"

definition help_status_3_11_10 :: "string \<Rightarrow> string option \<Rightarrow> string \<Rightarrow> nat" where
  "help_status_3_11_10 option_string sep e =
     (if option_string = ''-h'' \<and> e \<noteq> [] \<and> (sep = None \<or> sep = Some [])
      then short_flags e
      else 2)"

text \<open>
  CPython 3.11.2: the option tuple has no separator, so that \<^verbatim>\<open>-h=x\<close> is read like
  \<^verbatim>\<open>-hx\<close>, and a glued character that is no flag is an error at once (\<^verbatim>\<open>ignored explicit
  argument\<close>, exit status 2). The help is printed only when every glued character is an
  \<^verbatim>\<open>h\<close>.
\<close>

definition help_status_3_11_2 :: "string \<Rightarrow> string option \<Rightarrow> string \<Rightarrow> nat" where
  "help_status_3_11_2 option_string sep e =
     (if option_string = ''-h'' \<and> e \<noteq> [] \<and> list_all (\<lambda>c. c = CHR ''h'') e then 0 else 2)"

text \<open>
  One iteration: what \<^verbatim>\<open>consume_positionals\<close> and \<^verbatim>\<open>consume_optional\<close> do with the
  string at the current index, and the strings left after it. An argument goes to the
  pending positional (whose pattern \<^verbatim>\<open>-*A-*\<close> also swallows a \<^verbatim>\<open>--\<close> before or after it), or
  to \<^verbatim>\<open>extras\<close> when no positional is pending. A store option takes its explicit argument
  or else the next string, which must be an argument (its pattern is \<^verbatim>\<open>A\<close>).
\<close>

definition consume_step ::
  "'f builtins \<Rightarrow> 'f parse_state \<Rightarrow> 'f pattern \<times> string \<Rightarrow> ('f pattern \<times> string) list \<Rightarrow>
   py_error + ('f parse_state \<times> ('f pattern \<times> string) list)" where
  "consume_step b st item rest =
     (case item of
        (Arg, s) \<Rightarrow>
          (case positionals st of
             [] \<Rightarrow> Inr (st\<lparr>extras := extras st @ [s]\<rparr>, rest)
           | a # as \<Rightarrow>
               (case take_action b a s (st\<lparr>positionals := as\<rparr>) of
                  Inl e \<Rightarrow> Inl e
                | Inr st' \<Rightarrow>
                    Inr (st', case rest of (DashDash, d) # rest' \<Rightarrow> rest' | _ \<Rightarrow> rest)))
      | (DashDash, s) \<Rightarrow>
          (case positionals st of
             [] \<Rightarrow> Inr (st\<lparr>extras := extras st @ [s]\<rparr>, rest)
           | a # as \<Rightarrow>
               (case rest of
                  (Arg, v) # rest' \<Rightarrow>
                    (case take_action b a v (st\<lparr>positionals := as\<rparr>) of
                       Inl e \<Rightarrow> Inl e
                     | Inr st' \<Rightarrow> Inr (st', rest'))
                | _ \<Rightarrow> Inr (st\<lparr>extras := extras st @ [s]\<rparr>, rest)))
      | (Opt (act, option_string, sep, explicit_arg), s) \<Rightarrow>
          (case act of
             None \<Rightarrow> Inr (st\<lparr>extras := extras st @ [s]\<rparr>, rest)
           | Some HelpAction \<Rightarrow> Inl (SystemExit (help_exit b option_string sep explicit_arg))
           | Some (StoreAction a) \<Rightarrow>
               (case explicit_arg of
                  Some v \<Rightarrow>
                    (case take_action b a v st of
                       Inl e \<Rightarrow> Inl e
                     | Inr st' \<Rightarrow> Inr (st', rest))
                | None \<Rightarrow>
                    (case rest of
                       (Arg, v) # rest' \<Rightarrow>
                         (case take_action b a v st of
                            Inl e \<Rightarrow> Inl e
                          | Inr st' \<Rightarrow> Inr (st', rest'))
                     | _ \<Rightarrow> Inl (SystemExit 2)))))"

function consume ::
  "'f builtins \<Rightarrow> 'f parse_state \<Rightarrow> ('f pattern \<times> string) list \<Rightarrow> py_error + 'f parse_state" where
  "consume b st [] = Inr st"
| "consume b st (item # rest) =
     (case consume_step b st item rest of
        Inl e \<Rightarrow> Inl e
      | Inr (st', rest') \<Rightarrow> consume b st' rest')"
  by pat_completeness auto
termination
  by (relation "measure (\<lambda>(b, st, items). length items)")
     (auto simp: consume_step_def less_Suc_eq_le
       split: prod.splits pattern.splits list.splits sum.splits option.splits action.splits)

text \<open>
  After the loop: a default that is a string is converted by the argument's type when
  the option was not given (\<^verbatim>\<open>_get_value\<close>, which strips nothing).
\<close>

fun convert_defaults ::
  "'f builtins \<Rightarrow> 'f argument list \<Rightarrow> string list \<Rightarrow> 'f py_value dict \<Rightarrow>
   py_error + 'f py_value dict" where
  "convert_defaults b [] seen ns = Inr ns"
| "convert_defaults b (a # as) seen ns =
     (if arg_name a \<in> set seen \<or> \<not> is_optional a then convert_defaults b as seen ns
      else case arg_default a of
        PyStr s \<Rightarrow>
          (if map_of ns (dest a) = Some (PyStr s)
           then (case convert b (arg_type a) s of
                   None \<Rightarrow> Inl (SystemExit 2)
                 | Some v \<Rightarrow> convert_defaults b as seen (setitem (dest a) v ns))
           else convert_defaults b as seen ns)
      | _ \<Rightarrow> convert_defaults b as seen ns)"

text \<open>
  \<^verbatim>\<open>parse_known_args\<close> first stores every default; after the loop a missing positional
  and then any unconsumed string is a usage error.
\<close>

definition default_namespace :: "'f argument list \<Rightarrow> 'f py_value dict" where
  "default_namespace parser =
     fold (\<lambda>a ns. if map_of ns (dest a) = None then setitem (dest a) (arg_default a) ns else ns)
       parser []"

definition parse_args ::
  "'f builtins \<Rightarrow> 'f argument list \<Rightarrow> string list \<Rightarrow> py_error + 'f py_value dict" where
  "parse_args b parser args =
     (case classify parser args of
        Inl e \<Rightarrow> Inl e
      | Inr pats \<Rightarrow>
          (case consume b \<lparr>namespace = default_namespace parser,
                           positionals = filter (\<lambda>a. \<not> is_optional a) parser,
                           extras = [], seen_actions = []\<rparr> (zip pats args) of
             Inl e \<Rightarrow> Inl e
           | Inr st \<Rightarrow>
               (case convert_defaults b parser (seen_actions st) (namespace st) of
                  Inl e \<Rightarrow> Inl e
                | Inr ns \<Rightarrow>
                    if positionals st \<noteq> [] then Inl (SystemExit 2)
                    else if extras st \<noteq> [] then Inl (SystemExit 2)
                    else Inr ns)))"

text \<open>
  The seven \<^verbatim>\<open>add_argument\<close> calls of \<^verbatim>\<open>get_input_args\<close>, in the order of the source, and
  its \<^verbatim>\<open>return parser.parse_args()\<close>.
\<close>

definition argument_parser :: "'f builtins \<Rightarrow> 'f argument list" where
  "argument_parser b =
     (let parser = [];
          parser = add_argument parser ''data_dir'' type_str PyNone;
          parser = add_argument parser ''--arch'' type_str (PyStr ''vgg11'');
          parser = add_argument parser ''--save_dir'' type_str PyNone;
          parser = add_argument parser ''--learning_rate'' type_float
                     (PyFloat (float_literal b 0.001));
          parser = add_argument parser ''--hidden_units'' type_int (PyInt 512);
          parser = add_argument parser ''--epochs'' type_int (PyInt 5);
          parser = add_argument parser ''--gpu'' type_bool (PyBool True)
      in parser)"

definition get_input_args :: "'f builtins \<Rightarrow> string list \<Rightarrow> py_error + 'f py_value dict" where
  "get_input_args b argv = parse_args b (argument_parser b) argv"

text \<open>
  An argument string selects the option \<open>nm\<close> when the parser resolves it to that
  option's store action: the option string itself, an unambiguous abbreviation of it,
  or either followed by \<^verbatim>\<open>=\<close> and a value.
\<close>

definition selects :: "'f argument list \<Rightarrow> string \<Rightarrow> string \<Rightarrow> bool" where
  "selects parser arg_string nm =
     (case parse_optional parser arg_string of
        Inr (Some (Some (StoreAction a), _)) \<Rightarrow> arg_name a = nm
      | _ \<Rightarrow> False)"

text \<open>
  The values that a command line supplies to the option \<open>nm\<close>, in their order: for
  every argument string before the first \<^verbatim>\<open>--\<close> that selects \<open>nm\<close>, the explicit argument
  after its \<^verbatim>\<open>=\<close> when it has one, and otherwise the string that follows it, when that
  is an argument (neither the \<^verbatim>\<open>--\<close> nor an option string).
\<close>

fun option_values :: "'f argument list \<Rightarrow> string \<Rightarrow> string list \<Rightarrow> string list" where
  "option_values parser nm [] = []"
| "option_values parser nm (arg_string # rest) =
     (if arg_string = ''--'' then []
      else
        (case parse_optional parser arg_string of
           Inr (Some (Some (StoreAction a), _, _, explicit_arg)) \<Rightarrow>
             if arg_name a = nm
             then (case explicit_arg of
                     Some v \<Rightarrow> [v]
                   | None \<Rightarrow>
                       (case rest of
                          [] \<Rightarrow> []
                        | v # _ \<Rightarrow>
                            if v \<noteq> ''--'' \<and> parse_optional parser v = Inr None then [v]
                            else []))
             else []
         | _ \<Rightarrow> [])
        @ option_values parser nm rest)"

subsection \<open>print_input_args\<close>

text \<open>
  \<^verbatim>\<open>print_input_args\<close> is one call of \<^verbatim>\<open>print\<close> with sixteen objects: a label and a value
  for each attribute, a header before and a newline after. \<^verbatim>\<open>print\<close> writes \<^verbatim>\<open>str\<close> of each
  object, separated by one space, and ends with a newline. The standard output is a
  string that the function extends; the function returns \<^verbatim>\<open>None\<close>. Reading an attribute
  the object lacks raises \<^verbatim>\<open>AttributeError\<close>.
\<close>

definition getattr :: "'f py_value dict \<Rightarrow> string \<Rightarrow> py_error + 'f py_value" where
  "getattr obj nm = (case map_of obj nm of None \<Rightarrow> Inl (AttributeError nm) | Some v \<Rightarrow> Inr v)"

fun str_nat :: "nat \<Rightarrow> string" where
  "str_nat n =
     (if n < 10 then [''0123456789'' ! n]
      else str_nat (n div 10) @ [''0123456789'' ! (n mod 10)])"

definition str_int :: "int \<Rightarrow> string" where
  "str_int i = (if i < 0 then CHR ''-'' # str_nat (nat (- i)) else str_nat (nat i))"

definition py_str :: "'f builtins \<Rightarrow> 'f py_value \<Rightarrow> string" where
  "py_str b v =
     (case v of
        PyNone \<Rightarrow> ''None''
      | PyStr s \<Rightarrow> s
      | PyFloat x \<Rightarrow> float_str b x
      | PyInt i \<Rightarrow> str_int i
      | PyBool t \<Rightarrow> (if t then ''True'' else ''False'')
      | PyEmptyList \<Rightarrow> ''[]'')"

fun join :: "string \<Rightarrow> string list \<Rightarrow> string" where
  "join sep [] = []"
| "join sep [x] = x"
| "join sep (x # y # ys) = x @ sep @ join sep (y # ys)"

definition py_print :: "string list \<Rightarrow> string \<Rightarrow> string" where
  "py_print objs out = out @ join '' '' objs @ [CHR 0x0A]"

definition print_input_args ::
  "'f builtins \<Rightarrow> 'f py_value dict \<Rightarrow> string \<Rightarrow> py_error + ('f py_value \<times> string)" where
  "print_input_args b in_args out =
     and_then (getattr in_args ''data_dir'') (\<lambda>data_dir.
     and_then (getattr in_args ''arch'') (\<lambda>arch.
     and_then (getattr in_args ''save_dir'') (\<lambda>save_dir.
     and_then (getattr in_args ''learning_rate'') (\<lambda>learning_rate.
     and_then (getattr in_args ''hidden_units'') (\<lambda>hidden_units.
     and_then (getattr in_args ''epochs'') (\<lambda>epochs.
     and_then (getattr in_args ''gpu'') (\<lambda>gpu.
     Inr (PyNone, py_print [
       CHR 0x0A # ''Command line arguments:'',
       CHR 0x0A # ''    dir = '', py_str b data_dir,
       CHR 0x0A # ''    arch = '', py_str b arch,
       CHR 0x0A # ''    save_dir = '', py_str b save_dir,
       CHR 0x0A # ''    learning_rate = '', py_str b learning_rate,
       CHR 0x0A # ''    hidden_units = '', py_str b hidden_units,
       CHR 0x0A # ''    epochs = '', py_str b epochs,
       CHR 0x0A # ''    gpu = '', py_str b gpu,
       [CHR 0x0A]] out))))))))"

text \<open>
  For stating what is printed: the lines of a text (each ended by a newline, a last
  one possibly not), and the label of a line: its first word after the indentation.
\<close>

fun lines_of :: "string \<Rightarrow> string list" where
  "lines_of [] = []"
| "lines_of (c # cs) =
     (if c = CHR 0x0A then [] # lines_of cs
      else case lines_of cs of [] \<Rightarrow> [[c]] | l # ls \<Rightarrow> (c # l) # ls)"

definition label_of :: "string \<Rightarrow> string" where
  "label_of l = takeWhile (\<lambda>c. c \<noteq> CHR '' '') (dropWhile (\<lambda>c. c = CHR '' '') l)"

text \<open>
  A small stand-in for the interpreter, for evaluating examples: it converts the
  strings \<^verbatim>\<open>0.01\<close> and \<^verbatim>\<open>20\<close> only, and its \<^verbatim>\<open>argparse\<close> is that of CPython 3.11.10.
  \<open>legacy_builtins\<close> is the same with the \<^verbatim>\<open>argparse\<close> of CPython 3.11.2.
\<close>

definition plain_builtins :: "rat builtins" where
  "plain_builtins = \<lparr>
     py_float = (\<lambda>s. if s = ''0.01'' then Some 0.01 else None),
     py_int = (\<lambda>s. if s = ''20'' then Some 20 else None),
     float_literal = (\<lambda>q. q),
     float_str = (\<lambda>x. if x = 0.001 then ''0.001'' else if x = 0.01 then ''0.01'' else ''?''),
     strips_dashes = False,
     glued_help_status = help_status_3_11_10\<rparr>"

definition legacy_builtins :: "rat builtins" where
  "legacy_builtins = plain_builtins\<lparr>strips_dashes := True,
     glued_help_status := help_status_3_11_2\<rparr>"

subsection \<open>Auxiliary notions for the proofs\<close>

text \<open>
  \<open>option_store item rest\<close> is the store that the option at the head of the loop makes
  when the strings \<open>rest\<close> follow it, and \<open>item_stores\<close> collects these stores along the
  command line. \<open>may_store pos items a v\<close>: running the loop over \<open>items\<close> with the
  positionals \<open>pos\<close> pending can store the string \<open>v\<close> through the argument \<open>a\<close>.
  \<open>step_store\<close> is the store that one iteration makes, if any.
\<close>

definition option_store ::
  "'f pattern \<times> string \<Rightarrow> ('f pattern \<times> string) list \<Rightarrow> ('f argument \<times> string) option" where
  "option_store item rest =
     (case item of
        (Opt (Some (StoreAction a), option_string, sep, explicit_arg), s) \<Rightarrow>
          (case explicit_arg of
             Some v \<Rightarrow> Some (a, v)
           | None \<Rightarrow> (case rest of (Arg, v) # rest' \<Rightarrow> Some (a, v) | _ \<Rightarrow> None))
      | _ \<Rightarrow> None)"

fun item_stores :: "('f pattern \<times> string) list \<Rightarrow> ('f argument \<times> string) list" where
  "item_stores [] = []"
| "item_stores (item # rest) =
     (case option_store item rest of None \<Rightarrow> [] | Some p \<Rightarrow> [p]) @ item_stores rest"

text \<open>
  \<open>stored b k init stores\<close> is the value that the attribute \<open>k\<close> holds after the stores
  have been made in their order, when it held \<open>init\<close> before.
\<close>

fun stored ::
  "'f builtins \<Rightarrow> string \<Rightarrow> 'f py_value option \<Rightarrow> ('f argument \<times> string) list \<Rightarrow>
   'f py_value option" where
  "stored b k init [] = init"
| "stored b k init (p # ps) =
     stored b k (if dest (fst p) = k then get_values b (fst p) (snd p) else init) ps"

definition may_store ::
  "'f argument list \<Rightarrow> ('f pattern \<times> string) list \<Rightarrow> 'f argument \<Rightarrow> string \<Rightarrow> bool" where
  "may_store pos items a v \<longleftrightarrow>
     (a \<in> set pos \<and> (\<exists>pat. (pat, v) \<in> set items)) \<or> (a, v) \<in> set (item_stores items)"

definition step_store ::
  "'f parse_state \<Rightarrow> 'f pattern \<times> string \<Rightarrow> ('f pattern \<times> string) list \<Rightarrow>
   ('f argument \<times> string) option" where
  "step_store st item rest =
     (case item of
        (Arg, s) \<Rightarrow> (case positionals st of [] \<Rightarrow> None | a # as \<Rightarrow> Some (a, s))
      | (DashDash, s) \<Rightarrow>
          (case positionals st of
             [] \<Rightarrow> None
           | a # as \<Rightarrow> (case rest of (Arg, v) # rest' \<Rightarrow> Some (a, v) | _ \<Rightarrow> None))
      | (Opt (act, option_string, sep, explicit_arg), s) \<Rightarrow>
          (case act of
             Some (StoreAction a) \<Rightarrow>
               (case explicit_arg of
                  Some v \<Rightarrow> Some (a, v)
                | None \<Rightarrow> (case rest of (Arg, v) # rest' \<Rightarrow> Some (a, v) | _ \<Rightarrow> None))
           | _ \<Rightarrow> None))"

text \<open>The namespace of the command line \<^verbatim>\<open>flowers/\<close>, for evaluating examples.\<close>

definition example_args :: "rat py_value dict" where
  "example_args =
     [(''data_dir'', PyStr ''flowers/''), (''arch'', PyStr ''vgg11''), (''save_dir'', PyNone),
      (''learning_rate'', PyFloat 0.001), (''hidden_units'', PyInt 512),
      (''epochs'', PyInt 5), (''gpu'', PyBool True)]"

section \<open>Properties of the path resolver and the transform pipelines\<close>

text \<open>
  Claim C2. For every string \<open>d\<close>, \<open>data_subdirs d\<close> has exactly the keys \<^verbatim>\<open>train\<close>,
  \<^verbatim>\<open>valid\<close>, \<^verbatim>\<open>test\<close>, bound to \<open>d\<close> followed by \<^verbatim>\<open>train/\<close>, \<^verbatim>\<open>valid/\<close>, \<^verbatim>\<open>test/\<close>. The
  function takes no file system and returns no error, and it does not repair a missing
  trailing separator: \<^verbatim>\<open>flowers\<close> gives \<^verbatim>\<open>flowerstrain/\<close>.
\<close>

theorem data_subdirs_concatenates:
  "keys (data_subdirs d) = [''train'', ''valid'', ''test''] \<and>
   getitem (data_subdirs d) ''train'' = Inr (d @ ''train/'') \<and>
   getitem (data_subdirs d) ''valid'' = Inr (d @ ''valid/'') \<and>
   getitem (data_subdirs d) ''test'' = Inr (d @ ''test/'') \<and>
   getitem (data_subdirs ''flowers'') ''train'' = Inr ''flowerstrain/''"
  by (simp add: data_subdirs_def keys_def getitem_def setitem_def)

text \<open>
  Claim C3. The training pipeline is, in order, random rotation by 30 degrees, random
  resized crop to 224, random horizontal flip, to-tensor, normalize. The validation
  pipeline is resize to 256, centre crop to 224, to-tensor, normalize; the test pipeline
  is equal to it, and none of its steps is randomized.
\<close>

theorem data_transforms_pipelines:
  "getitem data_transforms ''train'' = Inr (Compose [RandomRotation 30, RandomResizedCrop 224,
       RandomHorizontalFlip, ToTensor,
       Normalize [0.485, 0.456, 0.406] [0.229, 0.224, 0.225]]) \<and>
   getitem data_transforms ''valid'' = Inr (Compose [Resize 256, CenterCrop 224, ToTensor,
       Normalize [0.485, 0.456, 0.406] [0.229, 0.224, 0.225]]) \<and>
   getitem data_transforms ''test'' = getitem data_transforms ''valid'' \<and>
   map_sum id (\<lambda>p. filter randomized (steps p)) (getitem data_transforms ''valid'') = Inr [] \<and>
   keys data_transforms = [''train'', ''valid'', ''test'']"
  by (simp add: data_transforms_def keys_def getitem_def setitem_def)

text \<open>
  Claim C7. In each of the three pipelines the last step is the normalization with mean
  (485/1000, 456/1000, 406/1000) and standard deviation (229/1000, 224/1000, 225/1000).
\<close>

theorem data_transforms_normalize_constants:
  "map (\<lambda>s. map_sum id (\<lambda>p. last (steps p)) (getitem data_transforms s))
       [''train'', ''valid'', ''test''] =
   replicate 3 (Inr (Normalize [485 / 1000, 456 / 1000, 406 / 1000]
                               [229 / 1000, 224 / 1000, 225 / 1000]))"
  by (simp add: data_transforms_def getitem_def setitem_def numeral_3_eq_3)

section \<open>Properties of the loader assembly\<close>

lemma and_then_Inr_iff:
  "and_then m f = Inr y \<longleftrightarrow> (\<exists>x. m = Inr x \<and> f x = Inr y)"
  by (cases m) (simp_all add: and_then_def)

lemma update_fresh: "k \<notin> fst ` set al \<Longrightarrow> AList.update k v al = al @ [(k, v)]"
  by (induction al) auto

text \<open>Over distinct class names the dictionary comprehension is the zip with the indices.\<close>

lemma fold_setitem_zip:
  "distinct cls \<Longrightarrow> n \<le> length cls \<Longrightarrow>
   fold (\<lambda>i d. setitem (cls ! i) i d) [0..<n] [] = zip (take n cls) [0..<n]"
proof (induction n)
  case 0
  then show ?case by simp
next
  case (Suc n)
  then have IH: "fold (\<lambda>i d. setitem (cls ! i) i d) [0..<n] [] = zip (take n cls) [0..<n]"
    by simp
  have fresh: "cls ! n \<notin> fst ` set (zip (take n cls) [0..<n])"
  proof
    assume "cls ! n \<in> fst ` set (zip (take n cls) [0..<n])"
    then have "cls ! n \<in> set (take n cls)"
      by (auto dest: set_zip_leftD)
    then obtain i where "i < n" "cls ! i = cls ! n"
      using Suc.prems by (auto simp: in_set_conv_nth)
    with Suc.prems show False
      by (simp add: nth_eq_iff_index_eq)
  qed
  have "fold (\<lambda>i d. setitem (cls ! i) i d) [0..<Suc n] [] =
        setitem (cls ! n) n (zip (take n cls) [0..<n])"
    by (simp add: IH)
  also have "\<dots> = zip (take n cls) [0..<n] @ [(cls ! n, n)]"
    by (simp add: setitem_def update_fresh[OF fresh])
  also have "\<dots> = zip (take (Suc n) cls) [0..<Suc n]"
    using Suc.prems by (simp add: take_Suc_conv_app_nth)
  finally show ?case .
qed

lemma find_classes_Some:
  "fs dir = Some entries \<Longrightarrow> distinct (map fst entries) \<Longrightarrow>
   find_classes fs dir =
     Inr (sort (map fst entries), zip (sort (map fst entries)) [0..<length entries])"
  using fold_setitem_zip[of "sort (map fst entries)" "length entries"]
  by (simp add: find_classes_def Let_def)

text \<open>What a successful call has done: every lookup and every dataset construction.\<close>

lemma data_loaders_Inr:
  assumes "data_loaders fs sd td = Inr (loaders, c2i)"
  shows "\<exists>dir_train t_train ds_train dir_valid t_valid ds_valid dir_test t_test ds_test.
      getitem sd ''train'' = Inr dir_train \<and> getitem td ''train'' = Inr t_train \<and>
      ImageFolder fs dir_train t_train = Inr ds_train \<and>
      getitem sd ''valid'' = Inr dir_valid \<and> getitem td ''valid'' = Inr t_valid \<and>
      ImageFolder fs dir_valid t_valid = Inr ds_valid \<and>
      getitem sd ''test'' = Inr dir_test \<and> getitem td ''test'' = Inr t_test \<and>
      ImageFolder fs dir_test t_test = Inr ds_test \<and>
      c2i = class_to_idx ds_train \<and>
      loaders = [(''train'', DataLoader ds_train 32 True),
                 (''valid'', DataLoader ds_train 32 True),
                 (''test'', DataLoader ds_train 32 True)]"
  using assms
  by (auto simp: data_loaders_def and_then_Inr_iff Let_def setitem_def getitem_def)

lemma data_loaders_Inl:
  "getitem sd s = Inr dir \<Longrightarrow> getitem td s = Inr t \<Longrightarrow> ImageFolder fs dir t = Inl e \<Longrightarrow>
   s = ''valid'' \<or> s = ''test'' \<Longrightarrow> isl (data_loaders fs sd td)"
  using data_loaders_Inr[of fs sd td]
  by (cases "data_loaders fs sd td") auto

lemmas loader_defs = data_loaders_def data_subdirs_def data_transforms_def setitem_def
  getitem_def and_then_def ImageFolder_def find_classes_def make_dataset_def path_join_def
  DataLoader_def

lemma flowers_loaders_succeed:
  "\<exists>loaders c2i.
     data_loaders flowers_fs (data_subdirs ''flowers/'') data_transforms = Inr (loaders, c2i)"
  by (simp add: loader_defs flowers_fs_def)

text \<open>
  Claim C1. The claim asks that the loader of each split wraps the dataset built from
  that split's own directory and pipeline. On the tree \<open>flowers_fs\<close> the loader stored
  under \<^verbatim>\<open>valid\<close> wraps the dataset rooted at \<^verbatim>\<open>flowers/train/\<close> with the classes
  daisy and roses, while the dataset the function built from \<^verbatim>\<open>flowers/valid/\<close> and the
  validation pipeline has the single class tulip: the two differ.
\<close>

theorem data_loaders_valid_loader_reads_train:
  "\<exists>loaders c2i dl t own.
     data_loaders flowers_fs (data_subdirs ''flowers/'') data_transforms = Inr (loaders, c2i) \<and>
     getitem loaders ''valid'' = Inr dl \<and>
     root_path (dl_dataset dl) = ''flowers/train/'' \<and>
     classes (dl_dataset dl) = [''daisy'', ''roses''] \<and>
     getitem (data_subdirs ''flowers/'') ''valid'' = Inr ''flowers/valid/'' \<and>
     getitem data_transforms ''valid'' = Inr t \<and>
     ImageFolder flowers_fs ''flowers/valid/'' t = Inr own \<and>
     classes own = [''tulip''] \<and>
     dl_dataset dl \<noteq> own"
  by (simp add: loader_defs flowers_fs_def)

text \<open>
  Claim C4. When \<open>data_loaders\<close> succeeds, the class map it returns is the
  \<^verbatim>\<open>class_to_idx\<close> of the dataset built from the training directory and the training
  pipeline. Over a training directory whose subfolder names are distinct (as directory
  entries are), its keys are exactly those names, without repetition, and its values
  are the numbers \<open>0..<k\<close> for \<open>k\<close> subfolders, without repetition.
\<close>

theorem class_to_idx_from_train:
  assumes "data_loaders fs sd td = Inr (loaders, c2i)"
    and "getitem sd ''train'' = Inr dir"
    and "fs dir = Some entries"
    and "distinct (map fst entries)"
  shows "(\<exists>t ds. getitem td ''train'' = Inr t \<and> ImageFolder fs dir t = Inr ds \<and>
            c2i = class_to_idx ds) \<and>
         set (keys c2i) = fst ` set entries \<and> distinct (keys c2i) \<and>
         set (map snd c2i) = {0..<length entries} \<and> distinct (map snd c2i) \<and>
         length c2i = length entries"
proof -
  from data_loaders_Inr[OF assms(1)] assms(2) obtain t ds where
    t: "getitem td ''train'' = Inr t" and ds: "ImageFolder fs dir t = Inr ds"
    and c: "c2i = class_to_idx ds"
    by auto
  from ds assms(3,4) have "class_to_idx ds = zip (sort (map fst entries)) [0..<length entries]"
    by (auto simp: ImageFolder_def find_classes_Some and_then_def Let_def split: if_splits)
  with c have z: "c2i = zip (sort (map fst entries)) [0..<length entries]" by simp
  have k: "keys c2i = sort (map fst entries)" and v: "map snd c2i = [0..<length entries]"
    by (simp_all add: z keys_def)
  have 1: "\<exists>t ds. getitem td ''train'' = Inr t \<and> ImageFolder fs dir t = Inr ds \<and>
      c2i = class_to_idx ds"
    using t ds c by blast
  have 2: "set (keys c2i) = fst ` set entries"
    by (simp add: k)
  have 3: "distinct (keys c2i)"
    using assms(4) by (simp add: k)
  have 4: "set (map snd c2i) = {0..<length entries}"
    by (simp only: v set_upt)
  have 5: "distinct (map snd c2i)"
    by (simp only: v distinct_upt)
  have 6: "length c2i = length entries"
    by (simp add: z)
  from 1 2 3 4 5 6 show ?thesis
    by (intro conjI)
qed

theorem class_to_idx_from_train_witness:
  "\<exists>loaders c2i.
     data_loaders flowers_fs (data_subdirs ''flowers/'') data_transforms = Inr (loaders, c2i) \<and>
     getitem (data_subdirs ''flowers/'') ''train'' = Inr ''flowers/train/'' \<and>
     flowers_fs ''flowers/train/'' =
       Some [(''roses'', [''r1.jpg'', ''r2.jpg'']), (''daisy'', [''d1.jpg''])] \<and>
     set (keys c2i) = {''roses'', ''daisy''} \<and> distinct (keys c2i) \<and>
     set (map snd c2i) = {0..<2} \<and> distinct (map snd c2i) \<and> length c2i = 2"
proof -
  obtain loaders c2i where
    r: "data_loaders flowers_fs (data_subdirs ''flowers/'') data_transforms = Inr (loaders, c2i)"
    using flowers_loaders_succeed by blast
  have g: "getitem (data_subdirs ''flowers/'') ''train'' = Inr ''flowers/train/''"
    by (simp add: data_subdirs_def getitem_def setitem_def)
  have f: "flowers_fs ''flowers/train/'' =
      Some [(''roses'', [''r1.jpg'', ''r2.jpg'']), (''daisy'', [''d1.jpg''])]"
    by (simp add: flowers_fs_def)
  have d: "distinct (map fst [(''roses'', [''r1.jpg'', ''r2.jpg'']), (''daisy'', [''d1.jpg''])])"
    by simp
  have e: "fst ` set [(''roses'', [''r1.jpg'', ''r2.jpg'']), (''daisy'', [''d1.jpg''])] =
      {''roses'', ''daisy''}"
    by simp
  have l: "length [(''roses'', [''r1.jpg'', ''r2.jpg'']), (''daisy'', [''d1.jpg''])] = 2"
    by simp
  have c: "set (keys c2i) = fst ` set [(''roses'', [''r1.jpg'', ''r2.jpg'']), (''daisy'', [''d1.jpg''])]"
    "distinct (keys c2i)"
    "set (map snd c2i) = {0..<length [(''roses'', [''r1.jpg'', ''r2.jpg'']), (''daisy'', [''d1.jpg''])]}"
    "distinct (map snd c2i)"
    "length c2i = length [(''roses'', [''r1.jpg'', ''r2.jpg'']), (''daisy'', [''d1.jpg''])]"
    using class_to_idx_from_train[OF r g f d] by blast+
  have k1: "set (keys c2i) = {''roses'', ''daisy''}"
    using c(1) e by (rule trans)
  have k3: "set (map snd c2i) = {0..<2}"
    using c(3) by (simp only: l)
  have k5: "length c2i = 2"
    using c(5) l by (rule trans)
  have "data_loaders flowers_fs (data_subdirs ''flowers/'') data_transforms = Inr (loaders, c2i) \<and>
     getitem (data_subdirs ''flowers/'') ''train'' = Inr ''flowers/train/'' \<and>
     flowers_fs ''flowers/train/'' =
       Some [(''roses'', [''r1.jpg'', ''r2.jpg'']), (''daisy'', [''d1.jpg''])] \<and>
     set (keys c2i) = {''roses'', ''daisy''} \<and> distinct (keys c2i) \<and>
     set (map snd c2i) = {0..<2} \<and> distinct (map snd c2i) \<and> length c2i = 2"
    using r g f k1 c(2) k3 c(4) k5 by (intro conjI)
  then show ?thesis by (intro exI)
qed

text \<open>
  Claim C8. When \<open>data_loaders\<close> succeeds it returns loaders under the keys \<^verbatim>\<open>train\<close>,
  \<^verbatim>\<open>valid\<close>, \<^verbatim>\<open>test\<close>, each with batch size 32 and shuffling switched on.
\<close>

theorem data_loaders_batch_size_shuffle:
  assumes "data_loaders fs sd td = Inr (loaders, c2i)"
  shows "keys loaders = [''train'', ''valid'', ''test''] \<and>
         map (\<lambda>(s, dl). (batch_size dl, shuffle dl)) loaders = replicate 3 (32, True)"
  using data_loaders_Inr[OF assms]
  by (auto simp: keys_def DataLoader_def numeral_3_eq_3)

theorem data_loaders_batch_size_shuffle_witness:
  "\<exists>loaders c2i.
     data_loaders flowers_fs (data_subdirs ''flowers/'') data_transforms = Inr (loaders, c2i) \<and>
     keys loaders = [''train'', ''valid'', ''test''] \<and>
     map (\<lambda>(s, dl). (batch_size dl, shuffle dl)) loaders = replicate 3 (32, True)"
proof -
  obtain loaders c2i where
    r: "data_loaders flowers_fs (data_subdirs ''flowers/'') data_transforms = Inr (loaders, c2i)"
    using flowers_loaders_succeed by blast
  from data_loaders_batch_size_shuffle[OF r] r show ?thesis by blast
qed

text \<open>
  Claim C10. All three datasets are built before any loader: if the directory of the
  validation or of the test split is missing, or its dataset cannot be built for any
  other reason, \<open>data_loaders\<close> returns an error. Yet when it succeeds, the loaders of
  all three splits wrap the one dataset built from the training directory.
\<close>

theorem data_loaders_fails_on_bad_split:
  "((s = ''valid'' \<or> s = ''test'') \<and> getitem sd s = Inr dir \<and> getitem td s = Inr t \<and>
      (fs dir = None \<or> isl (ImageFolder fs dir t))
      \<longrightarrow> isl (data_loaders fs sd td)) \<and>
   (data_loaders fs sd td = Inr (loaders, c2i)
      \<longrightarrow> (\<exists>dir_train t_train ds.
            getitem sd ''train'' = Inr dir_train \<and> getitem td ''train'' = Inr t_train \<and>
            ImageFolder fs dir_train t_train = Inr ds \<and>
            map (\<lambda>(s, dl). (s, dl_dataset dl)) loaders =
              [(''train'', ds), (''valid'', ds), (''test'', ds)]))"
proof (intro conjI impI)
  assume a: "(s = ''valid'' \<or> s = ''test'') \<and> getitem sd s = Inr dir \<and> getitem td s = Inr t \<and>
      (fs dir = None \<or> isl (ImageFolder fs dir t))"
  have "fs dir = None \<Longrightarrow> isl (ImageFolder fs dir t)"
    by (simp add: ImageFolder_def find_classes_def and_then_def)
  with a obtain e where "ImageFolder fs dir t = Inl e"
    by (cases "ImageFolder fs dir t") auto
  with a show "isl (data_loaders fs sd td)"
    using data_loaders_Inl[of sd s dir td t fs e] by blast
next
  assume "data_loaders fs sd td = Inr (loaders, c2i)"
  from data_loaders_Inr[OF this]
  show "\<exists>dir_train t_train ds.
            getitem sd ''train'' = Inr dir_train \<and> getitem td ''train'' = Inr t_train \<and>
            ImageFolder fs dir_train t_train = Inr ds \<and>
            map (\<lambda>(s, dl). (s, dl_dataset dl)) loaders =
              [(''train'', ds), (''valid'', ds), (''test'', ds)]"
    by (auto simp: DataLoader_def)
qed

theorem data_loaders_fails_on_bad_split_witness:
  "no_valid_fs ''flowers/valid/'' = None \<and>
   isl (data_loaders no_valid_fs (data_subdirs ''flowers/'') data_transforms) \<and>
   (\<exists>loaders c2i ds.
      data_loaders flowers_fs (data_subdirs ''flowers/'') data_transforms = Inr (loaders, c2i) \<and>
      map (\<lambda>(s, dl). (s, dl_dataset dl)) loaders =
        [(''train'', ds), (''valid'', ds), (''test'', ds)])"
proof -
  have n: "no_valid_fs ''flowers/valid/'' = None"
    by (simp add: no_valid_fs_def)
  have g: "getitem (data_subdirs ''flowers/'') ''valid'' = Inr ''flowers/valid/''"
    by (simp add: data_subdirs_def getitem_def setitem_def)
  obtain t where t: "getitem data_transforms ''valid'' = Inr t"
    by (simp add: data_transforms_def getitem_def setitem_def)
  obtain loaders c2i where
    r: "data_loaders flowers_fs (data_subdirs ''flowers/'') data_transforms = Inr (loaders, c2i)"
    using flowers_loaders_succeed by blast
  have h: "(''valid'' = ''valid'' \<or> ''valid'' = ''test'') \<and>
      getitem (data_subdirs ''flowers/'') ''valid'' = Inr ''flowers/valid/'' \<and>
      getitem data_transforms ''valid'' = Inr t \<and>
      (no_valid_fs ''flowers/valid/'' = None \<or>
       isl (ImageFolder no_valid_fs ''flowers/valid/'' t))"
    using n g t by (intro conjI disjI1) simp_all
  have 1: "isl (data_loaders no_valid_fs (data_subdirs ''flowers/'') data_transforms)"
    using data_loaders_fails_on_bad_split[of "''valid''" "data_subdirs ''flowers/''"
        "''flowers/valid/''" data_transforms t no_valid_fs "[]" "[]",
        THEN conjunct1, THEN mp, OF h] .
  have 2: "\<exists>ds. map (\<lambda>(s, dl). (s, dl_dataset dl)) loaders =
      [(''train'', ds), (''valid'', ds), (''test'', ds)]"
    using data_loaders_fails_on_bad_split[of "''valid''" "data_subdirs ''flowers/''"
        "''flowers/valid/''" data_transforms t flowers_fs loaders c2i,
        THEN conjunct2, THEN mp, OF r]
    by (elim exE conjE) (rule exI)
  from 2 obtain ds where "map (\<lambda>(s, dl). (s, dl_dataset dl)) loaders =
      [(''train'', ds), (''valid'', ds), (''test'', ds)]" ..
  with n 1 r show ?thesis
    by (intro conjI exI)
qed

section \<open>Properties of the argument parser\<close>

subsection \<open>What the loop can store\<close>

lemma map_of_setitem: "map_of (setitem k' v ns) k = (if k = k' then Some v else map_of ns k)"
  by (simp add: setitem_def update_conv')

lemmas step_splits = prod.splits pattern.splits list.splits sum.splits option.splits
  action.splits

text \<open>An iteration consumes the string at the head and at most one string after it.\<close>

lemma consume_step_rest:
  "consume_step b st item rest = Inr (st', rest') \<Longrightarrow> rest' = rest \<or> (\<exists>x. rest = x # rest')"
  unfolding consume_step_def
  by (simp add: take_action_def split: step_splits; elim conjE disjE; simp)

lemma consume_step_positionals:
  "consume_step b st item rest = Inr (st', rest') \<Longrightarrow>
   set (positionals st') \<subseteq> set (positionals st)"
  by (auto simp: consume_step_def take_action_def split: step_splits)

lemma consume_step_namespace:
  "consume_step b st item rest = Inr (st', rest') \<Longrightarrow>
   (case step_store st item rest of
      None \<Rightarrow> namespace st' = namespace st
    | Some (a, s) \<Rightarrow>
        (case get_values b a s of
           None \<Rightarrow> False
         | Some v \<Rightarrow> namespace st' = setitem (dest a) v (namespace st)))"
  by (auto simp: consume_step_def step_store_def take_action_def split: step_splits)

lemma step_store_may_store:
  assumes "step_store st item rest = Some (a, s)"
  shows "may_store (positionals st) (item # rest) a s"
proof -
  obtain pat t where item: "item = (pat, t)" by (cases item)
  show ?thesis
  proof (cases pat)
    case Arg
    with assms item have "a \<in> set (positionals st) \<and> s = t"
      by (auto simp: step_store_def split: list.splits)
    with item show ?thesis by (auto simp: may_store_def)
  next
    case DashDash
    with assms item have "a \<in> set (positionals st) \<and> (\<exists>pat. (pat, s) \<in> set rest)"
      by (auto simp: step_store_def split: list.splits pattern.splits prod.splits)
    then show ?thesis by (auto simp: may_store_def)
  next
    case (Opt tup)
    with assms item have "option_store item rest = Some (a, s)"
      by (simp add: step_store_def option_store_def split: step_splits)
    then show ?thesis by (simp add: may_store_def)
  qed
qed

lemma item_stores_append: "set (item_stores items) \<subseteq> set (item_stores (pre @ items))"
  by (induction pre) auto

lemma may_store_mono:
  "may_store pos items a s \<Longrightarrow> set pos \<subseteq> set pos' \<Longrightarrow> may_store pos' (pre @ items) a s"
  unfolding may_store_def using item_stores_append[of items pre] by auto

lemma consume_preserves:
  assumes "consume b st items = Inr st'"
    and "Q (map_of (namespace st) k)"
    and "\<And>a s v. may_store (positionals st) items a s \<Longrightarrow> dest a = k \<Longrightarrow>
           get_values b a s = Some v \<Longrightarrow> Q (Some v)"
  shows "Q (map_of (namespace st') k)"
  using assms
proof (induction b st items rule: consume.induct)
  case (1 b st)
  then show ?case by simp
next
  case (2 b st item rest)
  from "2.prems"(1) obtain st1 rest1 where
    step: "consume_step b st item rest = Inr (st1, rest1)" and
    rec: "consume b st1 rest1 = Inr st'"
    by (auto split: sum.splits)
  from consume_step_rest[OF step] obtain pre where pre: "item # rest = pre @ rest1"
    by (metis append_Cons append_Nil)
  have sub: "set (positionals st1) \<subseteq> set (positionals st)"
    using consume_step_positionals[OF step] .
  have q1: "Q (map_of (namespace st1) k)"
  proof (cases "step_store st item rest")
    case None
    with consume_step_namespace[OF step] "2.prems"(2) show ?thesis by simp
  next
    case (Some p)
    obtain a s where p: "p = (a, s)" by (cases p)
    with Some consume_step_namespace[OF step] obtain v where
      v: "get_values b a s = Some v"
      and ns: "namespace st1 = setitem (dest a) v (namespace st)"
      by (auto split: option.splits)
    have ms: "may_store (positionals st) (item # rest) a s"
      using step_store_may_store Some p by blast
    show ?thesis
    proof (cases "dest a = k")
      case True
      with "2.prems"(3)[OF ms True v] ns show ?thesis
        by (simp add: map_of_setitem)
    next
      case False
      with "2.prems"(2) ns show ?thesis
        by (simp add: map_of_setitem)
    qed
  qed
  show ?case
  proof (rule "2.IH"[OF step refl rec q1])
    fix a s v
    assume ms: "may_store (positionals st1) rest1 a s" and k: "dest a = k"
      and v: "get_values b a s = Some v"
    from may_store_mono[OF ms sub, of pre] have "may_store (positionals st) (item # rest) a s"
      by (simp only: pre)
    from "2.prems"(3)[OF this k v] show "Q (Some v)" .
  qed
qed

text \<open>
  The store of an option is the store of its iteration; any other store of an iteration
  goes through a pending positional; and an iteration skips no option.
\<close>

lemma option_store_step:
  assumes "option_store item rest = Some q"
  shows "step_store st item rest = Some q"
proof -
  obtain pat t where item: "item = (pat, t)" by (cases item)
  show ?thesis
  proof (cases pat)
    case Arg
    with assms item show ?thesis by (simp add: option_store_def)
  next
    case DashDash
    with assms item show ?thesis by (simp add: option_store_def)
  next
    case (Opt tup)
    with assms item show ?thesis
      by (simp add: step_store_def option_store_def split: step_splits)
  qed
qed

lemma step_store_positional:
  assumes "option_store item rest = None" and "step_store st item rest = Some (a, s)"
  shows "a \<in> set (positionals st)"
proof -
  obtain pat t where item: "item = (pat, t)" by (cases item)
  show ?thesis
  proof (cases pat)
    case Arg
    with assms item show ?thesis
      by (auto simp: step_store_def split: list.splits)
  next
    case DashDash
    with assms item show ?thesis
      by (auto simp: step_store_def split: list.splits pattern.splits prod.splits)
  next
    case (Opt tup)
    with assms item show ?thesis
      by (simp add: step_store_def option_store_def split: step_splits)
  qed
qed

lemma consume_step_item_stores:
  assumes "consume_step b st item rest = Inr (st', rest')"
  shows "item_stores rest' = item_stores rest"
proof -
  from consume_step_rest[OF assms] show ?thesis
  proof
    assume "rest' = rest"
    then show ?thesis by simp
  next
    assume "\<exists>x. rest = x # rest'"
    then obtain x where x: "rest = x # rest'" ..
    have "\<exists>s. x = (Arg, s) \<or> x = (DashDash, s)"
      using assms x unfolding consume_step_def
      by (simp add: take_action_def split: step_splits; elim conjE disjE; simp)
    with x show ?thesis by (auto simp: option_store_def)
  qed
qed

subsection \<open>Classification of argument strings\<close>

lemma get_option_tuples_sound:
  assumes "(act, os, sep, e) \<in> set (get_option_tuples p s)"
  shows "\<exists>a. act = Some a \<and> (os, a) \<in> set (option_string_actions p) \<and>
     (e = None \<or>
      (CHR ''='' \<in> set s \<and> e = Some (drop 1 (dropWhile (\<lambda>c. c \<noteq> CHR ''='') s))) \<or>
      os = take 2 s)"
  using assms
  by (auto simp: get_option_tuples_def partition_eq_def Let_def
      split: list.splits if_splits)

lemma parse_optional_sound:
  assumes "parse_optional p s = Inr (Some (act, os, sep, e))" and "act = Some a"
  shows "(os, a) \<in> set (option_string_actions p) \<and>
     (e = None \<or>
      (CHR ''='' \<in> set s \<and> e = Some (drop 1 (dropWhile (\<lambda>c. c \<noteq> CHR ''='') s))) \<or>
      os = take 2 s)"
proof (cases "map_of (option_string_actions p) s")
  case (Some act')
  with assms have "act' = a \<and> os = s \<and> e = None"
    by (simp add: parse_optional_def split: if_splits)
  with Some show ?thesis by (auto dest: map_of_SomeD)
next
  case None
  note exact = None
  let ?pre = "takeWhile (\<lambda>c. c \<noteq> CHR ''='') s"
  let ?m = "if CHR ''='' \<in> set s then map_of (option_string_actions p) ?pre else None"
  show ?thesis
  proof (cases ?m)
    case (Some act')
    then have eq: "CHR ''='' \<in> set s" "map_of (option_string_actions p) ?pre = Some act'"
      by (simp_all split: if_splits)
    with exact assms have "act' = a \<and> os = ?pre \<and>
        e = Some (drop 1 (dropWhile (\<lambda>c. c \<noteq> CHR ''='') s))"
      by (simp add: parse_optional_def partition_eq_def split: if_splits)
    with eq show ?thesis by (auto dest: map_of_SomeD)
  next
    case None
    then have m: "(if (if CHR ''='' \<in> set s then ''='' else []) = [] then None
        else map_of (option_string_actions p) ?pre) = None"
      by (simp split: if_splits)
    have "(act, os, sep, e) \<in> set (get_option_tuples p s)"
    proof (cases "get_option_tuples p s")
      case Nil
      with exact m assms show ?thesis
        by (simp add: parse_optional_def partition_eq_def split: if_splits)
    next
      case (Cons t ts)
      with exact m assms have "ts = [] \<and> t = (act, os, sep, e)"
        by (cases ts) (simp_all add: parse_optional_def partition_eq_def split: if_splits)
      with Cons show ?thesis by simp
    qed
    from get_option_tuples_sound[OF this] assms(2) show ?thesis by auto
  qed
qed

text \<open>
  The stores that the options of a classified command line make are the values that
  the command line supplies to them, in the same order, and their actions are
  registered with the parser.
\<close>

lemma item_stores_args: "item_stores (zip (map (\<lambda>_. Arg) xs) ys) = []"
proof (induction xs arbitrary: ys)
  case Nil
  then show ?case by simp
next
  case (Cons x xs)
  then show ?case by (cases ys) (simp_all add: option_store_def)
qed

lemma classify_Cons:
  assumes "classify p (v # xs) = Inr ps"
  shows "\<exists>pat ps'. ps = pat # ps' \<and> length ps' = length xs \<and>
           (pat = Arg \<longleftrightarrow> v \<noteq> ''--'' \<and> parse_optional p v = Inr None)"
proof (cases "v = ''--''")
  case True
  with assms show ?thesis by auto
next
  case False
  with assms obtain ot ps' where
    ot: "parse_optional p v = Inr ot" and ps': "classify p xs = Inr ps'"
    and ps: "ps = (case ot of None \<Rightarrow> Arg | Some t \<Rightarrow> Opt t) # ps'"
    by (auto split: sum.splits)
  have "length ps' = length xs"
    using ps' 
  proof (induction xs arbitrary: ps')
    case Nil
    then show ?case by simp
  next
    case (Cons y ys)
    then show ?case by (auto split: if_splits sum.splits)
  qed
  with False ot ps show ?thesis by (cases ot) auto
qed

lemma option_store_next:
  assumes "classify p xs = Inr ps"
  shows "option_store (Opt (Some (StoreAction a), os, sep, None), x) (zip ps xs) =
     (case xs of
        [] \<Rightarrow> None
      | v # _ \<Rightarrow> if v \<noteq> ''--'' \<and> parse_optional p v = Inr None then Some (a, v) else None)"
proof (cases xs)
  case Nil
  then show ?thesis by (simp add: option_store_def)
next
  case (Cons v xs')
  with classify_Cons[of p v xs' ps] assms obtain pat ps' where
    ps: "ps = pat # ps'" and pat: "pat = Arg \<longleftrightarrow> v \<noteq> ''--'' \<and> parse_optional p v = Inr None"
    by auto
  show ?thesis
  proof (cases "pat = Arg")
    case True
    with ps pat Cons show ?thesis by (simp add: option_store_def)
  next
    case False
    with ps pat Cons show ?thesis by (cases pat) (auto simp: option_store_def)
  qed
qed

lemma classify_item_stores_eq:
  "classify p args = Inr pats \<Longrightarrow>
   map snd (filter (\<lambda>q. arg_name (fst q) = nm) (item_stores (zip pats args))) =
   option_values p nm args"
proof (induction args arbitrary: pats)
  case Nil
  then show ?case by simp
next
  case (Cons x xs)
  show ?case
  proof (cases "x = ''--''")
    case True
    with Cons.prems have "pats = DashDash # map (\<lambda>_. Arg) xs" by simp
    with True show ?thesis
      by (simp add: item_stores_args option_store_def)
  next
    case False
    with Cons.prems obtain ot ps where
      ot: "parse_optional p x = Inr ot" and ps: "classify p xs = Inr ps"
      and pats: "pats = (case ot of None \<Rightarrow> Arg | Some t \<Rightarrow> Opt t) # ps"
      by (auto split: sum.splits)
    note IH = Cons.IH[OF ps]
    let ?f = "\<lambda>l. map snd (filter (\<lambda>q. arg_name (fst q) = nm) l)"
    have ov: "option_values p nm (x # xs) =
        (case ot of
           Some (Some (StoreAction a), os, sep, e) \<Rightarrow>
             if arg_name a = nm
             then (case e of
                     Some v \<Rightarrow> [v]
                   | None \<Rightarrow>
                       (case xs of
                          [] \<Rightarrow> []
                        | v # _ \<Rightarrow>
                            if v \<noteq> ''--'' \<and> parse_optional p v = Inr None then [v] else []))
             else []
         | _ \<Rightarrow> []) @ option_values p nm xs"
      using False ot by (simp only: option_values.simps(2)[of p nm x xs] if_False sum.case)
    have hd: "?f (case option_store (case ot of None \<Rightarrow> Arg | Some t \<Rightarrow> Opt t, x) (zip ps xs) of
                   None \<Rightarrow> [] | Some q \<Rightarrow> [q]) =
        (case ot of
           Some (Some (StoreAction a), os, sep, e) \<Rightarrow>
             if arg_name a = nm
             then (case e of
                     Some v \<Rightarrow> [v]
                   | None \<Rightarrow>
                       (case xs of
                          [] \<Rightarrow> []
                        | v # _ \<Rightarrow>
                            if v \<noteq> ''--'' \<and> parse_optional p v = Inr None then [v] else []))
             else []
         | _ \<Rightarrow> [])"
    proof (cases ot)
      case None
      then show ?thesis by (simp add: option_store_def)
    next
      case (Some t)
      obtain act os sep e where t: "t = (act, os, sep, e)" by (cases t)
      show ?thesis
      proof (cases act)
        case None
        with Some t show ?thesis by (simp add: option_store_def)
      next
        case (Some action)
        note act = Some
        show ?thesis
        proof (cases action)
          case HelpAction
          with act \<open>ot = Some t\<close> t show ?thesis by (simp add: option_store_def)
        next
          case (StoreAction a)
          show ?thesis
          proof (cases e)
            case None
            with StoreAction act \<open>ot = Some t\<close> t option_store_next[OF ps, of a os sep x]
            show ?thesis by (simp split: list.splits)
          next
            case (Some v)
            with StoreAction act \<open>ot = Some t\<close> t show ?thesis
              by (simp add: option_store_def)
          qed
        qed
      qed
    qed
    have "?f (item_stores (zip pats (x # xs))) =
        ?f (case option_store (case ot of None \<Rightarrow> Arg | Some t \<Rightarrow> Opt t, x) (zip ps xs) of
              None \<Rightarrow> [] | Some q \<Rightarrow> [q]) @ ?f (item_stores (zip ps xs))"
      by (simp add: pats)
    with hd IH ov show ?thesis by simp
  qed
qed

lemma item_stores_registered:
  "classify p args = Inr pats \<Longrightarrow> (a, v) \<in> set (item_stores (zip pats args)) \<Longrightarrow>
   \<exists>os. (os, StoreAction a) \<in> set (option_string_actions p)"
proof (induction args arbitrary: pats)
  case Nil
  then show ?case by simp
next
  case (Cons x xs)
  show ?case
  proof (cases "x = ''--''")
    case True
    with Cons.prems(1) have "pats = DashDash # map (\<lambda>_. Arg) xs" by simp
    with Cons.prems(2) show ?thesis
      by (simp add: item_stores_args option_store_def)
  next
    case False
    with Cons.prems(1) obtain ot ps where
      ot: "parse_optional p x = Inr ot" and ps: "classify p xs = Inr ps"
      and pats: "pats = (case ot of None \<Rightarrow> Arg | Some t \<Rightarrow> Opt t) # ps"
      by (auto split: sum.splits)
    let ?item = "(case ot of None \<Rightarrow> Arg | Some t \<Rightarrow> Opt t, x)"
    from Cons.prems(2) pats have
      "option_store ?item (zip ps xs) = Some (a, v) \<or> (a, v) \<in> set (item_stores (zip ps xs))"
      by (auto split: option.splits)
    then show ?thesis
    proof
      assume "(a, v) \<in> set (item_stores (zip ps xs))"
      with Cons.IH[OF ps] show ?thesis by blast
    next
      assume st: "option_store ?item (zip ps xs) = Some (a, v)"
      then obtain os sep e where t: "ot = Some (Some (StoreAction a), os, sep, e)"
        by (auto simp: option_store_def split: step_splits)
      with ot have po: "parse_optional p x = Inr (Some (Some (StoreAction a), os, sep, e))"
        by simp
      from parse_optional_sound[OF po refl] show ?thesis
        by blast
    qed
  qed
qed

lemma classify_item_stores:
  assumes "classify p args = Inr pats" and "(a, v) \<in> set (item_stores (zip pats args))"
  shows "v \<in> set (option_values p (arg_name a) args) \<and>
   (\<exists>os. (os, StoreAction a) \<in> set (option_string_actions p))"
proof -
  from assms(2) have "v \<in> set (map snd (filter (\<lambda>q. arg_name (fst q) = arg_name a)
      (item_stores (zip pats args))))"
    by force
  with classify_item_stores_eq[OF assms(1), of "arg_name a"] item_stores_registered[OF assms]
  show ?thesis by simp
qed

lemma option_values_absent:
  "\<forall>t\<in>set argv. \<not> selects p t nm \<Longrightarrow> option_values p nm argv = []"
  by (induction argv) (auto simp: selects_def split: step_splits)

subsection \<open>An invariant of parse_args\<close>

lemma convert_defaults_preserves:
  assumes "convert_defaults b p seen ns = Inr ns'"
    and "Q (map_of ns k)"
    and "\<And>a s v. a \<in> set p \<Longrightarrow> dest a = k \<Longrightarrow> arg_default a = PyStr s \<Longrightarrow>
           convert b (arg_type a) s = Some v \<Longrightarrow> Q (Some v)"
  shows "Q (map_of ns' k)"
  using assms
proof (induction p arbitrary: ns)
  case Nil
  then show ?case by simp
next
  case (Cons a as)
  show ?case
  proof (cases "arg_name a \<notin> set seen \<and> is_optional a \<and>
      (\<exists>s. arg_default a = PyStr s \<and> map_of ns (dest a) = Some (PyStr s))")
    case False
    with Cons.prems(1) have "convert_defaults b as seen ns = Inr ns'"
      by (auto split: py_value.splits if_splits)
    moreover have "Q (Some v)" if "a' \<in> set as" "dest a' = k" "arg_default a' = PyStr s"
        "convert b (arg_type a') s = Some v" for a' s v
      using Cons.prems(3)[of a' s v] that by simp
    ultimately show ?thesis using Cons.IH[of ns] Cons.prems(2) by blast
  next
    case True
    then obtain s where s: "arg_default a = PyStr s" "map_of ns (dest a) = Some (PyStr s)"
      by blast
    with True Cons.prems(1) obtain v where
      v: "convert b (arg_type a) s = Some v" and
      r: "convert_defaults b as seen (setitem (dest a) v ns) = Inr ns'"
      by (auto split: option.splits)
    have "Q (map_of (setitem (dest a) v ns) k)"
      using Cons.prems(2) Cons.prems(3)[of a s v] s v
      by (auto simp: map_of_setitem)
    moreover have "Q (Some v)" if "a' \<in> set as" "dest a' = k" "arg_default a' = PyStr s"
        "convert b (arg_type a') s = Some v" for a' s v
      using Cons.prems(3)[of a' s v] that by simp
    ultimately show ?thesis using Cons.IH[of "setitem (dest a) v ns"] r by blast
  qed
qed

lemma parse_args_preserves:
  assumes ok: "parse_args b p args = Inr ns"
    and init: "Q (map_of (default_namespace p) k)"
    and pos: "\<And>a s v. a \<in> set p \<Longrightarrow> \<not> is_optional a \<Longrightarrow> s \<in> set args \<Longrightarrow> dest a = k \<Longrightarrow>
           get_values b a s = Some v \<Longrightarrow> Q (Some v)"
    and opt: "\<And>a os s v. (os, StoreAction a) \<in> set (option_string_actions p) \<Longrightarrow>
           s \<in> set (option_values p (arg_name a) args) \<Longrightarrow> dest a = k \<Longrightarrow>
           get_values b a s = Some v \<Longrightarrow> Q (Some v)"
    and dfl: "\<And>a s v. a \<in> set p \<Longrightarrow> dest a = k \<Longrightarrow> arg_default a = PyStr s \<Longrightarrow>
           convert b (arg_type a) s = Some v \<Longrightarrow> Q (Some v)"
  shows "Q (map_of ns k)"
proof -
  let ?st0 = "\<lparr>namespace = default_namespace p,
               positionals = filter (\<lambda>a. \<not> is_optional a) p,
               extras = [], seen_actions = []\<rparr>"
  from ok obtain pats st where
    c: "classify p args = Inr pats" and
    l: "consume b ?st0 (zip pats args) = Inr st" and
    d: "convert_defaults b p (seen_actions st) (namespace st) = Inr ns"
    by (auto simp: parse_args_def split: sum.splits if_splits)
  have q: "Q (map_of (namespace st) k)"
  proof (rule consume_preserves[where Q = Q and k = k, OF l])
    show "Q (map_of (namespace ?st0) k)" using init by simp
  next
    fix a s v
    assume ms: "may_store (positionals ?st0) (zip pats args) a s" and k: "dest a = k"
      and v: "get_values b a s = Some v"
    from ms consider
      (p) pat where "a \<in> set p" "\<not> is_optional a" "(pat, s) \<in> set (zip pats args)"
      | (o) "(a, s) \<in> set (item_stores (zip pats args))"
      unfolding may_store_def by auto
    then show "Q (Some v)"
    proof cases
      case p
      then have "s \<in> set args" by (auto dest: set_zip_rightD)
      with p pos k v show ?thesis by blast
    next
      case o
      from classify_item_stores[OF c o] opt k v show ?thesis by blast
    qed
  qed
  show ?thesis
    by (rule convert_defaults_preserves[where Q = Q and k = k, OF d q]) (rule dfl)
qed

subsection \<open>The parser of get_input_args\<close>

lemma argument_parser_eq:
  "argument_parser b =
     [\<lparr>arg_name = ''data_dir'', arg_type = type_str, arg_default = PyNone\<rparr>,
      \<lparr>arg_name = ''--arch'', arg_type = type_str, arg_default = PyStr ''vgg11''\<rparr>,
      \<lparr>arg_name = ''--save_dir'', arg_type = type_str, arg_default = PyNone\<rparr>,
      \<lparr>arg_name = ''--learning_rate'', arg_type = type_float,
         arg_default = PyFloat (float_literal b 0.001)\<rparr>,
      \<lparr>arg_name = ''--hidden_units'', arg_type = type_int, arg_default = PyInt 512\<rparr>,
      \<lparr>arg_name = ''--epochs'', arg_type = type_int, arg_default = PyInt 5\<rparr>,
      \<lparr>arg_name = ''--gpu'', arg_type = type_bool, arg_default = PyBool True\<rparr>]"
  by (simp add: argument_parser_def add_argument_def)

lemma default_namespace_eq:
  "default_namespace (argument_parser b) =
     [(''data_dir'', PyNone), (''arch'', PyStr ''vgg11''), (''save_dir'', PyNone),
      (''learning_rate'', PyFloat (float_literal b 0.001)), (''hidden_units'', PyInt 512),
      (''epochs'', PyInt 5), (''gpu'', PyBool True)]"
  by (simp add: argument_parser_eq default_namespace_def dest_def is_optional_def setitem_def)

lemma option_string_actions_eq:
  "option_string_actions (argument_parser b) =
     [(''-h'', HelpAction), (''--help'', HelpAction),
      (''--arch'', StoreAction \<lparr>arg_name = ''--arch'', arg_type = type_str,
          arg_default = PyStr ''vgg11''\<rparr>),
      (''--save_dir'', StoreAction \<lparr>arg_name = ''--save_dir'', arg_type = type_str,
          arg_default = PyNone\<rparr>),
      (''--learning_rate'', StoreAction \<lparr>arg_name = ''--learning_rate'', arg_type = type_float,
          arg_default = PyFloat (float_literal b 0.001)\<rparr>),
      (''--hidden_units'', StoreAction \<lparr>arg_name = ''--hidden_units'', arg_type = type_int,
          arg_default = PyInt 512\<rparr>),
      (''--epochs'', StoreAction \<lparr>arg_name = ''--epochs'', arg_type = type_int,
          arg_default = PyInt 5\<rparr>),
      (''--gpu'', StoreAction \<lparr>arg_name = ''--gpu'', arg_type = type_bool,
          arg_default = PyBool True\<rparr>)]"
  by (simp add: argument_parser_eq option_string_actions_def is_optional_def)

text \<open>Every store action of the parser, with its destination and type.\<close>

lemma store_action_cases:
  assumes "(os, StoreAction a) \<in> set (option_string_actions (argument_parser b))"
  shows "os = arg_name a \<and> length os > 2 \<and> a \<in> set (argument_parser b) \<and>
     (dest a = ''gpu'' \<longleftrightarrow> arg_name a = ''--gpu'') \<and>
     (dest a = ''hidden_units'' \<longleftrightarrow> arg_name a = ''--hidden_units'') \<and>
     (arg_name a = ''--gpu'' \<longrightarrow> arg_type a = type_bool)"
  using assms unfolding option_string_actions_eq
  by (auto simp: argument_parser_eq dest_def is_optional_def)

lemma positional_cases:
  assumes "a \<in> set (argument_parser b)" "\<not> is_optional a"
  shows "dest a = ''data_dir''"
  using assms by (auto simp: argument_parser_eq dest_def is_optional_def)

lemma default_cases:
  assumes "a \<in> set (argument_parser b)" "arg_default a = PyStr s"
  shows "dest a = ''arch''"
  using assms by (auto simp: argument_parser_eq dest_def is_optional_def)

lemma option_absent_keeps_default:
  assumes ok: "get_input_args b argv = Inr in_args"
    and absent: "\<forall>t\<in>set argv. \<not> selects (argument_parser b) t nm"
    and nm: "nm = ''--gpu'' \<and> k = ''gpu'' \<or> nm = ''--hidden_units'' \<and> k = ''hidden_units''"
  shows "map_of in_args k = map_of (default_namespace (argument_parser b)) k"
proof -
  let ?p = "argument_parser b"
  let ?Q = "\<lambda>x. x = map_of (default_namespace ?p) k"
  from ok have pa: "parse_args b ?p argv = Inr in_args"
    by (simp add: get_input_args_def)
  show ?thesis
  proof (rule parse_args_preserves[where Q = ?Q and k = k, OF pa])
    show "?Q (map_of (default_namespace ?p) k)" by simp
  next
    fix a s v
    assume "a \<in> set ?p" "\<not> is_optional a" "dest a = k"
    with positional_cases[of a b] nm show "?Q (Some v)" by auto
  next
    fix a os s v
    assume reg: "(os, StoreAction a) \<in> set (option_string_actions ?p)"
      and s: "s \<in> set (option_values ?p (arg_name a) argv)"
      and k: "dest a = k"
    from store_action_cases[OF reg] k nm have "arg_name a = nm" by auto
    with s option_values_absent[OF absent] show "?Q (Some v)" by simp
  next
    fix a s v
    assume "a \<in> set ?p" "dest a = k" "arg_default a = PyStr s"
    with default_cases[of a b s] nm show "?Q (Some v)" by auto
  qed
qed

lemma gpu_nonempty_values:
  assumes ok: "get_input_args b argv = Inr in_args"
    and ne: "\<forall>v\<in>set (option_values (argument_parser b) ''--gpu'' argv).
               v \<noteq> [] \<and> \<not> (strips_dashes b \<and> v = ''--'')"
  shows "map_of in_args ''gpu'' = Some (PyBool True)"
proof -
  let ?p = "argument_parser b"
  let ?Q = "\<lambda>x. x = Some (PyBool True)"
  from ok have pa: "parse_args b ?p argv = Inr in_args"
    by (simp add: get_input_args_def)
  show ?thesis
  proof (rule parse_args_preserves[where Q = ?Q and k = "''gpu''", OF pa])
    show "?Q (map_of (default_namespace ?p) ''gpu'')"
      by (simp add: default_namespace_eq)
  next
    fix a s v
    assume "a \<in> set ?p" "\<not> is_optional a" "dest a = ''gpu''"
    with positional_cases[of a b] show "?Q (Some v)" by auto
  next
    fix a os s v
    assume reg: "(os, StoreAction a) \<in> set (option_string_actions ?p)"
      and s: "s \<in> set (option_values ?p (arg_name a) argv)"
      and k: "dest a = ''gpu''"
      and v: "get_values b a s = Some v"
    from store_action_cases[OF reg] k have nm: "arg_name a = ''--gpu''"
      and ty: "arg_type a = type_bool"
      by auto
    from s nm ne have "s \<noteq> [] \<and> \<not> (strips_dashes b \<and> s = ''--'')" by simp
    with v ty show "?Q (Some v)"
      by (auto simp: get_values_def convert_def split: if_splits)
  next
    fix a s v
    assume "a \<in> set ?p" "dest a = ''gpu''" "arg_default a = PyStr s"
    with default_cases[of a b s] show "?Q (Some v)" by auto
  qed
qed

lemma parse_optional_plain:
  "d = [] \<or> hd d \<noteq> CHR ''-'' \<Longrightarrow> parse_optional p d = Inr None"
  by (auto simp: parse_optional_def)

lemma plain_not_dashdash: "d = [] \<or> hd d \<noteq> CHR ''-'' \<Longrightarrow> d \<noteq> ''--''"
  by auto

lemma parse_optional_gpu:
  "parse_optional (argument_parser b) ''--gpu'' =
     Inr (Some (Some (StoreAction \<lparr>arg_name = ''--gpu'', arg_type = type_bool,
        arg_default = PyBool True\<rparr>), ''--gpu'', None, None))"
  unfolding parse_optional_def option_string_actions_eq by simp

lemma convert_defaults_parser:
  "map_of ns ''arch'' = Some v \<Longrightarrow>
   convert_defaults b (argument_parser b) seen ns = Inr ns"
  by (auto simp: argument_parser_eq is_optional_def dest_def convert_def setitem_def
      update_triv)

lemma get_input_args_plain:
  assumes "d = [] \<or> hd d \<noteq> CHR ''-''"
  shows "get_input_args b [d] =
     Inr [(''data_dir'', PyStr d), (''arch'', PyStr ''vgg11''), (''save_dir'', PyNone),
          (''learning_rate'', PyFloat (float_literal b 0.001)), (''hidden_units'', PyInt 512),
          (''epochs'', PyInt 5), (''gpu'', PyBool True)]"
proof -
  have c: "classify (argument_parser b) [d] = Inr [Arg]"
    using parse_optional_plain[OF assms, where p = "argument_parser b"] plain_not_dashdash[OF assms] by simp
  show ?thesis
    unfolding get_input_args_def parse_args_def c default_namespace_eq
    by (simp add: consume_step_def take_action_def get_values_def convert_def argument_parser_eq
        is_optional_def dest_def setitem_def convert_defaults_parser[unfolded argument_parser_eq])
qed

lemma get_input_args_gpu_value:
  assumes "d = [] \<or> hd d \<noteq> CHR ''-''" and "v = [] \<or> hd v \<noteq> CHR ''-''"
  shows "get_input_args b [d, ''--gpu'', v] =
     Inr [(''data_dir'', PyStr d), (''arch'', PyStr ''vgg11''), (''save_dir'', PyNone),
          (''learning_rate'', PyFloat (float_literal b 0.001)), (''hidden_units'', PyInt 512),
          (''epochs'', PyInt 5), (''gpu'', PyBool (v \<noteq> []))]"
proof -
  have c: "classify (argument_parser b) [d, ''--gpu'', v] =
      Inr [Arg, Opt (Some (StoreAction \<lparr>arg_name = ''--gpu'', arg_type = type_bool,
        arg_default = PyBool True\<rparr>), ''--gpu'', None, None), Arg]"
    using parse_optional_plain[OF assms(1), where p = "argument_parser b"] plain_not_dashdash[OF assms(1)]
      parse_optional_plain[OF assms(2), where p = "argument_parser b"] plain_not_dashdash[OF assms(2)]
    by (simp add: parse_optional_gpu)
  show ?thesis
    unfolding get_input_args_def parse_args_def c default_namespace_eq
    using plain_not_dashdash[OF assms(2)]
    by (simp add: consume_step_def take_action_def get_values_def convert_def argument_parser_eq
        is_optional_def dest_def setitem_def convert_defaults_parser[unfolded argument_parser_eq])
qed

lemma parse_optional_gpu_dashes:
  "parse_optional (argument_parser b) ''--gpu=--'' =
     Inr (Some (Some (StoreAction \<lparr>arg_name = ''--gpu'', arg_type = type_bool,
        arg_default = PyBool True\<rparr>), ''--gpu'', Some ''='', Some ''--''))"
  unfolding parse_optional_def option_string_actions_eq by (simp add: partition_eq_def)

lemma get_input_args_gpu_dashes:
  assumes "d = [] \<or> hd d \<noteq> CHR ''-''"
  shows "get_input_args b [d, ''--gpu=--''] =
     Inr [(''data_dir'', PyStr d), (''arch'', PyStr ''vgg11''), (''save_dir'', PyNone),
          (''learning_rate'', PyFloat (float_literal b 0.001)), (''hidden_units'', PyInt 512),
          (''epochs'', PyInt 5),
          (''gpu'', if strips_dashes b then PyEmptyList else PyBool True)]"
proof -
  have c: "classify (argument_parser b) [d, ''--gpu=--''] =
      Inr [Arg, Opt (Some (StoreAction \<lparr>arg_name = ''--gpu'', arg_type = type_bool,
        arg_default = PyBool True\<rparr>), ''--gpu'', Some ''='', Some ''--'')]"
    using parse_optional_plain[OF assms, where p = "argument_parser b"] plain_not_dashdash[OF assms]
    by (simp add: parse_optional_gpu_dashes)
  show ?thesis
    unfolding get_input_args_def parse_args_def c default_namespace_eq
    by (simp add: consume_step_def take_action_def get_values_def convert_def argument_parser_eq
        is_optional_def dest_def setitem_def convert_defaults_parser[unfolded argument_parser_eq])
qed

subsection \<open>The last value decides\<close>

text \<open>
  An attribute that only one option writes holds, after a successful parse, the
  conversion of the last value that the command line supplies to that option, or its
  default when the command line supplies none.
\<close>

lemma stored_append:
  "stored b k init (xs @ ys) = stored b k (stored b k init xs) ys"
  by (induction xs arbitrary: init) simp_all

lemma consume_stored:
  assumes "consume b st items = Inr st'"
    and "\<forall>a\<in>set (positionals st). dest a \<noteq> k"
  shows "map_of (namespace st') k = stored b k (map_of (namespace st) k) (item_stores items)"
  using assms
proof (induction b st items rule: consume.induct)
  case (1 b st)
  then show ?case by simp
next
  case (2 b st item rest)
  from "2.prems"(1) obtain st1 rest1 where
    step: "consume_step b st item rest = Inr (st1, rest1)" and
    rec: "consume b st1 rest1 = Inr st'"
    by (auto split: sum.splits)
  have pos1: "\<forall>a\<in>set (positionals st1). dest a \<noteq> k"
    using consume_step_positionals[OF step] "2.prems"(2) by blast
  have IH: "map_of (namespace st') k =
      stored b k (map_of (namespace st1) k) (item_stores rest1)"
    by (rule "2.IH"[OF step refl rec pos1])
  have rest1: "item_stores rest1 = item_stores rest"
    by (rule consume_step_item_stores[OF step])
  have head: "stored b k (map_of (namespace st) k)
        (case option_store item rest of None \<Rightarrow> [] | Some q \<Rightarrow> [q]) =
      map_of (namespace st1) k"
  proof (cases "option_store item rest")
    case None
    show ?thesis
    proof (cases "step_store st item rest")
      case None
      with consume_step_namespace[OF step] \<open>option_store item rest = None\<close> show ?thesis
        by simp
    next
      case (Some q)
      obtain a s where q: "q = (a, s)" by (cases q)
      with Some consume_step_namespace[OF step] obtain v where
        ns: "namespace st1 = setitem (dest a) v (namespace st)"
        by (auto split: option.splits)
      from step_store_positional[OF None] Some q "2.prems"(2) have "dest a \<noteq> k"
        by blast
      with ns None show ?thesis by (simp add: map_of_setitem)
    qed
  next
    case (Some q)
    obtain a s where q: "q = (a, s)" by (cases q)
    from option_store_step[OF Some, of st] q have "step_store st item rest = Some (a, s)"
      by simp
    with consume_step_namespace[OF step] obtain v where
      v: "get_values b a s = Some v" and
      ns: "namespace st1 = setitem (dest a) v (namespace st)"
      by (auto split: option.splits)
    with Some q show ?thesis by (simp add: map_of_setitem)
  qed
  have "stored b k (map_of (namespace st) k) (item_stores (item # rest)) =
      stored b k (map_of (namespace st1) k) (item_stores rest)"
    by (simp only: item_stores.simps stored_append head)
  with IH rest1 show ?case by simp
qed

lemma stored_last:
  assumes "\<forall>q\<in>set stores. (dest (fst q) = k \<longleftrightarrow> arg_name (fst q) = nm) \<and>
      (arg_name (fst q) = nm \<longrightarrow> get_values b (fst q) (snd q) = val (snd q))"
  shows "stored b k init stores =
     (case map snd (filter (\<lambda>q. arg_name (fst q) = nm) stores) of
        [] \<Rightarrow> init
      | v # vs \<Rightarrow> val (last (v # vs)))"
  using assms
proof (induction stores arbitrary: init)
  case Nil
  then show ?case by simp
next
  case (Cons q qs)
  then have IH: "\<And>init. stored b k init qs =
     (case map snd (filter (\<lambda>q. arg_name (fst q) = nm) qs) of
        [] \<Rightarrow> init
      | v # vs \<Rightarrow> val (last (v # vs)))"
    by simp
  from Cons.prems have q: "dest (fst q) = k \<longleftrightarrow> arg_name (fst q) = nm"
    "arg_name (fst q) = nm \<Longrightarrow> get_values b (fst q) (snd q) = val (snd q)"
    by simp_all
  show ?case
  proof (cases "arg_name (fst q) = nm")
    case True
    with q show ?thesis
      by (simp add: IH split: list.splits)
  next
    case False
    with q show ?thesis
      by (simp add: IH)
  qed
qed

lemma convert_defaults_other:
  assumes "convert_defaults b p seen ns = Inr ns'"
    and "\<And>a s. a \<in> set p \<Longrightarrow> arg_default a = PyStr s \<Longrightarrow> dest a \<noteq> k"
  shows "map_of ns' k = map_of ns k"
  by (rule convert_defaults_preserves[where Q = "\<lambda>x. x = map_of ns k" and k = k, OF assms(1)])
    (use assms(2) in auto)

lemma parse_args_last:
  assumes ok: "parse_args b p args = Inr ns"
    and pos: "\<And>a. a \<in> set p \<Longrightarrow> \<not> is_optional a \<Longrightarrow> dest a \<noteq> k"
    and dfl: "\<And>a s. a \<in> set p \<Longrightarrow> arg_default a = PyStr s \<Longrightarrow> dest a \<noteq> k"
    and reg: "\<And>os a s. (os, StoreAction a) \<in> set (option_string_actions p) \<Longrightarrow>
           (dest a = k \<longleftrightarrow> arg_name a = nm) \<and> (arg_name a = nm \<longrightarrow> get_values b a s = val s)"
  shows "map_of ns k =
     (case option_values p nm args of
        [] \<Rightarrow> map_of (default_namespace p) k
      | v # vs \<Rightarrow> val (last (v # vs)))"
proof -
  let ?st0 = "\<lparr>namespace = default_namespace p,
               positionals = filter (\<lambda>a. \<not> is_optional a) p,
               extras = [], seen_actions = []\<rparr>"
  from ok obtain pats st where
    c: "classify p args = Inr pats" and
    l: "consume b ?st0 (zip pats args) = Inr st" and
    d: "convert_defaults b p (seen_actions st) (namespace st) = Inr ns"
    by (auto simp: parse_args_def split: sum.splits if_splits)
  have p0: "\<forall>a\<in>set (positionals ?st0). dest a \<noteq> k"
    using pos by simp
  have "map_of (namespace st) k =
      stored b k (map_of (default_namespace p) k) (item_stores (zip pats args))"
    using consume_stored[OF l p0] by simp
  also have "\<dots> =
     (case map snd (filter (\<lambda>q. arg_name (fst q) = nm) (item_stores (zip pats args))) of
        [] \<Rightarrow> map_of (default_namespace p) k
      | v # vs \<Rightarrow> val (last (v # vs)))"
  proof (rule stored_last, rule ballI)
    fix q
    assume q: "q \<in> set (item_stores (zip pats args))"
    obtain a s where qa: "q = (a, s)" by (cases q)
    with q item_stores_registered[OF c, of a s] obtain os where
      "(os, StoreAction a) \<in> set (option_string_actions p)"
      by blast
    from reg[OF this, of s] qa
    show "(dest (fst q) = k \<longleftrightarrow> arg_name (fst q) = nm) \<and>
      (arg_name (fst q) = nm \<longrightarrow> get_values b (fst q) (snd q) = val (snd q))"
      by simp
  qed
  finally have "map_of (namespace st) k =
     (case option_values p nm args of
        [] \<Rightarrow> map_of (default_namespace p) k
      | v # vs \<Rightarrow> val (last (v # vs)))"
    by (simp only: classify_item_stores_eq[OF c])
  with convert_defaults_other[OF d dfl] show ?thesis by simp
qed

lemma store_action_gpu:
  assumes "(os, StoreAction a) \<in> set (option_string_actions (argument_parser b))"
  shows "(dest a = ''gpu'' \<longleftrightarrow> arg_name a = ''--gpu'') \<and>
     (arg_name a = ''--gpu'' \<longrightarrow>
        get_values b a s =
          Some (if strips_dashes b \<and> s = ''--'' then PyEmptyList else PyBool (s \<noteq> [])))"
  using assms unfolding option_string_actions_eq
  by (auto simp: dest_def is_optional_def get_values_def convert_def)

lemma gpu_last_value:
  assumes ok: "get_input_args b argv = Inr in_args"
  shows "map_of in_args ''gpu'' =
     Some (case option_values (argument_parser b) ''--gpu'' argv of
        [] \<Rightarrow> PyBool True
      | v # vs \<Rightarrow>
          if strips_dashes b \<and> last (v # vs) = ''--'' then PyEmptyList
          else PyBool (last (v # vs) \<noteq> []))"
proof -
  let ?p = "argument_parser b"
  let ?val = "\<lambda>s. Some (if strips_dashes b \<and> s = ''--'' then PyEmptyList else PyBool (s \<noteq> []))"
  from ok have pa: "parse_args b ?p argv = Inr in_args"
    by (simp add: get_input_args_def)
  have "map_of in_args ''gpu'' =
     (case option_values ?p ''--gpu'' argv of
        [] \<Rightarrow> map_of (default_namespace ?p) ''gpu''
      | v # vs \<Rightarrow> ?val (last (v # vs)))"
  proof (rule parse_args_last[where val = ?val, OF pa])
    fix a assume "a \<in> set ?p" "\<not> is_optional a"
    with positional_cases[of a b] show "dest a \<noteq> ''gpu''" by auto
  next
    fix a s assume "a \<in> set ?p" "arg_default a = PyStr s"
    with default_cases[of a b s] show "dest a \<noteq> ''gpu''" by auto
  next
    fix os a s
    assume "(os, StoreAction a) \<in> set (option_string_actions ?p)"
    from store_action_gpu[OF this, of s]
    show "(dest a = ''gpu'' \<longleftrightarrow> arg_name a = ''--gpu'') \<and>
      (arg_name a = ''--gpu'' \<longrightarrow> get_values b a s = ?val s)" .
  qed
  then show ?thesis
    by (simp add: default_namespace_eq split: list.splits)
qed

subsection \<open>The claims about get_input_args\<close>

lemma getattr_map_of: "map_of obj nm = Some v \<Longrightarrow> getattr obj nm = Inr v"
  by (simp add: getattr_def)

text \<open>
  Claim C5, as amended. Every non-empty value supplied to \<^verbatim>\<open>--gpu\<close> parses to true, with
  one exception: under a release of \<^verbatim>\<open>argparse\<close> that strips dashes, the value \<^verbatim>\<open>--\<close>
  (which only \<^verbatim>\<open>--gpu=--\<close> can supply) parses to the empty list. In full: whenever
  \<open>get_input_args\<close> returns a namespace, the attribute \<^verbatim>\<open>gpu\<close> is decided by the last value
  that the command line supplies to \<^verbatim>\<open>--gpu\<close>, whatever the other arguments are: it is true
  when that value is non-empty, whatever it says, false when it is empty, the empty list
  in the case of the exception, and true when the command line supplies no value. So
  \<^verbatim>\<open>gpu\<close> is true whenever every value supplied to \<^verbatim>\<open>--gpu\<close> is non-empty and none is the
  exception, and whenever no string selects \<^verbatim>\<open>--gpu\<close>. For a data directory \<open>d\<close> and a
  non-empty value \<open>v\<close> that do not start with a dash, the command line \<open>d --gpu v\<close> is
  accepted and gives \<^verbatim>\<open>gpu\<close> true; so does \<^verbatim>\<open>some_dir --gpu False\<close>, and so does \<open>d\<close> alone;
  the command line \<open>d --gpu=--\<close> is accepted and gives the empty list under a release that
  strips dashes, and true under any other.
\<close>

theorem get_input_args_gpu_true:
  "(get_input_args b argv = Inr in_args
      \<longrightarrow> getattr in_args ''gpu'' =
            Inr (case option_values (argument_parser b) ''--gpu'' argv of
                   [] \<Rightarrow> PyBool True
                 | v # vs \<Rightarrow>
                     if strips_dashes b \<and> last (v # vs) = ''--'' then PyEmptyList
                     else PyBool (last (v # vs) \<noteq> []))) \<and>
   (get_input_args b argv = Inr in_args \<and>
      (\<forall>v\<in>set (option_values (argument_parser b) ''--gpu'' argv).
          v \<noteq> [] \<and> \<not> (strips_dashes b \<and> v = ''--''))
      \<longrightarrow> getattr in_args ''gpu'' = Inr (PyBool True)) \<and>
   (get_input_args b argv = Inr in_args \<and>
      (\<forall>t\<in>set argv. \<not> selects (argument_parser b) t ''--gpu'')
      \<longrightarrow> getattr in_args ''gpu'' = Inr (PyBool True)) \<and>
   ((d = [] \<or> hd d \<noteq> CHR ''-'') \<and> v \<noteq> [] \<and> hd v \<noteq> CHR ''-''
      \<longrightarrow> (\<exists>in_args. get_input_args b [d, ''--gpu'', v] = Inr in_args \<and>
            getattr in_args ''gpu'' = Inr (PyBool True))) \<and>
   (\<exists>in_args. get_input_args b [''some_dir'', ''--gpu'', ''False''] = Inr in_args \<and>
      getattr in_args ''gpu'' = Inr (PyBool True)) \<and>
   ((d = [] \<or> hd d \<noteq> CHR ''-'')
      \<longrightarrow> (\<exists>in_args. get_input_args b [d] = Inr in_args \<and>
            getattr in_args ''gpu'' = Inr (PyBool True))) \<and>
   ((d = [] \<or> hd d \<noteq> CHR ''-'')
      \<longrightarrow> (\<exists>in_args. get_input_args b [d, ''--gpu=--''] = Inr in_args \<and>
            getattr in_args ''gpu'' =
              Inr (if strips_dashes b then PyEmptyList else PyBool True)))"
proof (intro conjI impI)
  assume "get_input_args b argv = Inr in_args"
  from gpu_last_value[OF this]
  show "getattr in_args ''gpu'' =
      Inr (case option_values (argument_parser b) ''--gpu'' argv of
             [] \<Rightarrow> PyBool True
           | v # vs \<Rightarrow>
               if strips_dashes b \<and> last (v # vs) = ''--'' then PyEmptyList
               else PyBool (last (v # vs) \<noteq> []))"
    by (rule getattr_map_of)
next
  assume "get_input_args b argv = Inr in_args \<and>
    (\<forall>v\<in>set (option_values (argument_parser b) ''--gpu'' argv).
        v \<noteq> [] \<and> \<not> (strips_dashes b \<and> v = ''--''))"
  then show "getattr in_args ''gpu'' = Inr (PyBool True)"
    using gpu_nonempty_values[of b argv in_args] by (simp add: getattr_map_of)
next
  assume a: "get_input_args b argv = Inr in_args \<and>
    (\<forall>t\<in>set argv. \<not> selects (argument_parser b) t ''--gpu'')"
  then have "map_of in_args ''gpu'' = map_of (default_namespace (argument_parser b)) ''gpu''"
    using option_absent_keeps_default[of b argv in_args "''--gpu''" "''gpu''"] by simp
  then show "getattr in_args ''gpu'' = Inr (PyBool True)"
    by (simp add: default_namespace_eq getattr_map_of)
next
  assume "(d = [] \<or> hd d \<noteq> CHR ''-'') \<and> v \<noteq> [] \<and> hd v \<noteq> CHR ''-''"
  then show "\<exists>in_args. get_input_args b [d, ''--gpu'', v] = Inr in_args \<and>
      getattr in_args ''gpu'' = Inr (PyBool True)"
    using get_input_args_gpu_value[of d v b] by (simp add: getattr_def)
next
  show "\<exists>in_args. get_input_args b [''some_dir'', ''--gpu'', ''False''] = Inr in_args \<and>
      getattr in_args ''gpu'' = Inr (PyBool True)"
    using get_input_args_gpu_value[of "''some_dir''" "''False''" b] by (simp add: getattr_def)
next
  assume "d = [] \<or> hd d \<noteq> CHR ''-''"
  then show "\<exists>in_args. get_input_args b [d] = Inr in_args \<and>
      getattr in_args ''gpu'' = Inr (PyBool True)"
    using get_input_args_plain[of d b] by (simp add: getattr_def)
next
  assume "d = [] \<or> hd d \<noteq> CHR ''-''"
  then show "\<exists>in_args. get_input_args b [d, ''--gpu=--''] = Inr in_args \<and>
      getattr in_args ''gpu'' = Inr (if strips_dashes b then PyEmptyList else PyBool True)"
    using get_input_args_gpu_dashes[of d b] by (simp add: getattr_def)
qed

theorem get_input_args_gpu_true_witness:
  "(\<exists>in_args.
      get_input_args plain_builtins [''some_dir'', ''--arch='', ''--gpu'', ''False''] =
        Inr in_args \<and>
      option_values (argument_parser plain_builtins) ''--gpu''
        [''some_dir'', ''--arch='', ''--gpu'', ''False''] = [''False''] \<and>
      getattr in_args ''gpu'' = Inr (PyBool True)) \<and>
   (\<exists>in_args. get_input_args legacy_builtins [''some_dir'', ''--gpu'', ''False''] = Inr in_args \<and>
      option_values (argument_parser legacy_builtins) ''--gpu''
        [''some_dir'', ''--gpu'', ''False''] = [''False''] \<and>
      getattr in_args ''gpu'' = Inr (PyBool True)) \<and>
   (\<exists>in_args. get_input_args plain_builtins [''some_dir''] = Inr in_args \<and>
      list_all (\<lambda>t. \<not> selects (argument_parser plain_builtins) t ''--gpu'') [''some_dir''] \<and>
      getattr in_args ''gpu'' = Inr (PyBool True)) \<and>
   (\<exists>in_args. get_input_args legacy_builtins [''some_dir'', ''--gpu=--''] = Inr in_args \<and>
      getattr in_args ''gpu'' = Inr PyEmptyList) \<and>
   (\<exists>in_args. get_input_args plain_builtins [''some_dir'', ''--gpu=--''] = Inr in_args \<and>
      getattr in_args ''gpu'' = Inr (PyBool True)) \<and>
   (\<exists>in_args. get_input_args plain_builtins [''some_dir'', ''--gpu'', []] = Inr in_args \<and>
      option_values (argument_parser plain_builtins) ''--gpu'' [''some_dir'', ''--gpu'', []] =
        [[]] \<and>
      getattr in_args ''gpu'' = Inr (PyBool False)) \<and>
   (\<exists>in_args.
      get_input_args plain_builtins [''some_dir'', ''--gpu='', ''--gpu'', ''x''] = Inr in_args \<and>
      option_values (argument_parser plain_builtins) ''--gpu''
        [''some_dir'', ''--gpu='', ''--gpu'', ''x''] = [[], ''x''] \<and>
      getattr in_args ''gpu'' = Inr (PyBool True))"
proof -
  let ?p = "argument_parser plain_builtins"
  let ?argv = "[''some_dir'', ''--arch='', ''--gpu'', ''False'']"
  let ?gpu = "\<lparr>arg_name = ''--gpu'', arg_type = type_bool,
      arg_default = PyBool True :: rat py_value\<rparr>"
  note t = get_input_args_gpu_true[of _ _ _ "''some_dir''" "''False''"]
  note plain = parse_optional_plain[of "''some_dir''" ?p] parse_optional_plain[of "''False''" ?p]
    parse_optional_plain[of "[]" ?p] parse_optional_plain[of "''x''" ?p]
  note run = consume_step_def take_action_def get_values_def convert_def argument_parser_eq
    is_optional_def dest_def setitem_def plain_builtins_def
    convert_defaults_parser[unfolded argument_parser_eq]
  have sd: "strips_dashes plain_builtins = False"
    by (simp add: plain_builtins_def)
  have pd: "''some_dir'' = [] \<or> hd ''some_dir'' \<noteq> CHR ''-''"
    by simp
  have p: "(''some_dir'' = [] \<or> hd ''some_dir'' \<noteq> CHR ''-'') \<and> ''False'' \<noteq> [] \<and>
      hd ''False'' \<noteq> CHR ''-''"
    by simp
  have po: "parse_optional ?p ''--arch='' =
     Inr (Some (Some (StoreAction \<lparr>arg_name = ''--arch'', arg_type = type_str,
        arg_default = PyStr ''vgg11''\<rparr>), ''--arch'', Some ''='', Some []))"
    unfolding parse_optional_def option_string_actions_eq by (simp add: partition_eq_def)
  have pe: "parse_optional ?p ''--gpu='' = Inr (Some (Some (StoreAction ?gpu), ''--gpu'',
        Some ''='', Some []))"
    unfolding parse_optional_def option_string_actions_eq by (simp add: partition_eq_def)
  have c: "classify ?p ?argv =
      Inr [Arg,
           Opt (Some (StoreAction \<lparr>arg_name = ''--arch'', arg_type = type_str,
             arg_default = PyStr ''vgg11''\<rparr>), ''--arch'', Some ''='', Some []),
           Opt (Some (StoreAction ?gpu), ''--gpu'', None, None),
           Arg]"
    using plain by (simp add: po parse_optional_gpu)
  obtain ns1 where 1: "get_input_args plain_builtins ?argv = Inr ns1"
    unfolding get_input_args_def parse_args_def c default_namespace_eq
    by (simp add: run)
  have o1: "option_values ?p ''--gpu'' ?argv = [''False'']"
    using plain by (simp add: po parse_optional_gpu)
  have h1: "\<forall>v\<in>set (option_values ?p ''--gpu'' ?argv).
      v \<noteq> [] \<and> \<not> (strips_dashes plain_builtins \<and> v = ''--'')"
    unfolding o1 by simp
  have g1: "getattr ns1 ''gpu'' = Inr (PyBool True)"
    using t[of plain_builtins ?argv ns1, THEN conjunct2, THEN conjunct1] 1 h1 by blast
  obtain ns2 where
    2: "get_input_args legacy_builtins [''some_dir'', ''--gpu'', ''False''] = Inr ns2"
    using t[of legacy_builtins "[]" "[]", THEN conjunct2, THEN conjunct2, THEN conjunct2,
        THEN conjunct1, THEN mp, OF p]
    by blast
  have o2: "option_values (argument_parser legacy_builtins) ''--gpu''
      [''some_dir'', ''--gpu'', ''False''] = [''False'']"
    using parse_optional_plain[of "''some_dir''" "argument_parser legacy_builtins"]
      parse_optional_plain[of "''False''" "argument_parser legacy_builtins"]
    by (simp add: parse_optional_gpu)
  have h2: "\<forall>v\<in>set (option_values (argument_parser legacy_builtins) ''--gpu''
        [''some_dir'', ''--gpu'', ''False'']).
      v \<noteq> [] \<and> \<not> (strips_dashes legacy_builtins \<and> v = ''--'')"
    unfolding o2 by simp
  have g2: "getattr ns2 ''gpu'' = Inr (PyBool True)"
    using t[of legacy_builtins "[''some_dir'', ''--gpu'', ''False'']" ns2, THEN conjunct2,
        THEN conjunct1] 2 h2
    by blast
  obtain ns3 where 3: "get_input_args plain_builtins [''some_dir''] = Inr ns3"
    using t[of plain_builtins "[]" "[]", THEN conjunct2, THEN conjunct2, THEN conjunct2,
        THEN conjunct2, THEN conjunct2, THEN conjunct1, THEN mp, OF pd]
    by blast
  have s: "\<not> selects ?p ''some_dir'' ''--gpu''"
    using plain by (simp add: selects_def)
  then have h3: "\<forall>t\<in>set [''some_dir'']. \<not> selects ?p t ''--gpu''"
    by simp
  have l3: "list_all (\<lambda>t. \<not> selects ?p t ''--gpu'') [''some_dir'']"
    using s by simp
  have g3: "getattr ns3 ''gpu'' = Inr (PyBool True)"
    using t[of plain_builtins "[''some_dir'']" ns3, THEN conjunct2, THEN conjunct2,
        THEN conjunct1] 3 h3
    by blast
  have 4: "\<exists>in_args. get_input_args legacy_builtins [''some_dir'', ''--gpu=--''] = Inr in_args \<and>
      getattr in_args ''gpu'' = Inr PyEmptyList"
    using t[of legacy_builtins "[]" "[]", THEN conjunct2, THEN conjunct2, THEN conjunct2,
        THEN conjunct2, THEN conjunct2, THEN conjunct2, THEN mp, OF pd]
    by (simp add: legacy_builtins_def)
  have 5: "\<exists>in_args. get_input_args plain_builtins [''some_dir'', ''--gpu=--''] = Inr in_args \<and>
      getattr in_args ''gpu'' = Inr (PyBool True)"
    using t[of plain_builtins "[]" "[]", THEN conjunct2, THEN conjunct2, THEN conjunct2,
        THEN conjunct2, THEN conjunct2, THEN conjunct2, THEN mp, OF pd]
    by (simp add: plain_builtins_def)
  let ?a6 = "[''some_dir'', ''--gpu'', []]"
  obtain ns6 where 6: "get_input_args plain_builtins ?a6 = Inr ns6"
    using get_input_args_gpu_value[of "''some_dir''" "[]" plain_builtins] by simp
  have o6: "option_values ?p ''--gpu'' ?a6 = [[]]"
    using plain by (simp add: parse_optional_gpu)
  have g6: "getattr ns6 ''gpu'' = Inr (PyBool False)"
    using t[of plain_builtins ?a6 ns6, THEN conjunct1, THEN mp, OF 6]
    unfolding o6 sd by simp
  let ?a8 = "[''some_dir'', ''--gpu='', ''--gpu'', ''x'']"
  have c8: "classify ?p ?a8 =
      Inr [Arg, Opt (Some (StoreAction ?gpu), ''--gpu'', Some ''='', Some []),
           Opt (Some (StoreAction ?gpu), ''--gpu'', None, None), Arg]"
    using plain by (simp add: pe parse_optional_gpu)
  obtain ns8 where 8: "get_input_args plain_builtins ?a8 = Inr ns8"
    unfolding get_input_args_def parse_args_def c8 default_namespace_eq
    by (simp add: run)
  have o8: "option_values ?p ''--gpu'' ?a8 = [[], ''x'']"
    using plain by (simp add: pe parse_optional_gpu)
  have g8: "getattr ns8 ''gpu'' = Inr (PyBool True)"
    using t[of plain_builtins ?a8 ns8, THEN conjunct1, THEN mp, OF 8]
    unfolding o8 sd by simp
  from 1 o1 g1 have a1: "\<exists>in_args. get_input_args plain_builtins ?argv = Inr in_args \<and>
      option_values ?p ''--gpu'' ?argv = [''False''] \<and>
      getattr in_args ''gpu'' = Inr (PyBool True)"
    by blast
  from 2 o2 g2 have a2: "\<exists>in_args.
      get_input_args legacy_builtins [''some_dir'', ''--gpu'', ''False''] = Inr in_args \<and>
      option_values (argument_parser legacy_builtins) ''--gpu''
        [''some_dir'', ''--gpu'', ''False''] = [''False''] \<and>
      getattr in_args ''gpu'' = Inr (PyBool True)"
    by blast
  from 3 l3 g3 have a3: "\<exists>in_args. get_input_args plain_builtins [''some_dir''] = Inr in_args \<and>
      list_all (\<lambda>t. \<not> selects ?p t ''--gpu'') [''some_dir''] \<and>
      getattr in_args ''gpu'' = Inr (PyBool True)"
    by blast
  from 6 o6 g6 have a6: "\<exists>in_args. get_input_args plain_builtins ?a6 = Inr in_args \<and>
      option_values ?p ''--gpu'' ?a6 = [[]] \<and> getattr in_args ''gpu'' = Inr (PyBool False)"
    by blast
  from 8 o8 g8 have a8: "\<exists>in_args. get_input_args plain_builtins ?a8 = Inr in_args \<and>
      option_values ?p ''--gpu'' ?a8 = [[], ''x''] \<and> getattr in_args ''gpu'' = Inr (PyBool True)"
    by blast
  from a1 a2 a3 4 5 a6 a8 show ?thesis
    by (intro conjI)
qed

text \<open>
  Claim C5 as stated fails at one input. Under the \<^verbatim>\<open>argparse\<close> of CPython 3.11.2 the
  command line \<^verbatim>\<open>flowers/ --gpu=--\<close> is accepted and supplies the non-empty value \<^verbatim>\<open>--\<close> to
  \<^verbatim>\<open>--gpu\<close>, yet the attribute \<^verbatim>\<open>gpu\<close> is the empty list, not true: the library removes
  the \<^verbatim>\<open>--\<close> before the type \<^verbatim>\<open>bool\<close> is applied.
\<close>

theorem get_input_args_gpu_dashes_counterexample:
  "get_input_args legacy_builtins [''flowers/'', ''--gpu=--''] =
     Inr (setitem ''gpu'' PyEmptyList example_args) \<and>
   option_values (argument_parser legacy_builtins) ''--gpu'' [''flowers/'', ''--gpu=--''] =
     [''--''] \<and>
   ''--'' \<noteq> [] \<and>
   getattr (setitem ''gpu'' PyEmptyList example_args) ''gpu'' = Inr PyEmptyList \<and>
   (PyEmptyList :: rat py_value) \<noteq> PyBool True"
proof (intro conjI)
  show "get_input_args legacy_builtins [''flowers/'', ''--gpu=--''] =
     Inr (setitem ''gpu'' PyEmptyList example_args)"
    using get_input_args_gpu_dashes[of "''flowers/''" legacy_builtins]
    by (simp add: example_args_def legacy_builtins_def plain_builtins_def setitem_def)
  show "option_values (argument_parser legacy_builtins) ''--gpu'' [''flowers/'', ''--gpu=--''] =
     [''--'']"
    using parse_optional_plain[of "''flowers/''" "argument_parser legacy_builtins"]
    by (simp add: parse_optional_gpu_dashes)
qed (simp_all add: getattr_def example_args_def setitem_def)

text \<open>
  Claim C6. Whenever \<open>get_input_args\<close> returns a namespace and no string of the command
  line selects \<^verbatim>\<open>--hidden_units\<close>, the attribute \<^verbatim>\<open>hidden_units\<close> is 512, not 4096. A
  command line that is a data directory alone (not starting with a dash) is accepted
  and gives 512.
\<close>

theorem get_input_args_hidden_units_default:
  "(get_input_args b argv = Inr in_args \<and>
      (\<forall>t\<in>set argv. \<not> selects (argument_parser b) t ''--hidden_units'')
      \<longrightarrow> getattr in_args ''hidden_units'' = Inr (PyInt 512) \<and>
          getattr in_args ''hidden_units'' \<noteq> Inr (PyInt 4096)) \<and>
   ((d = [] \<or> hd d \<noteq> CHR ''-'')
      \<longrightarrow> (\<exists>in_args. get_input_args b [d] = Inr in_args \<and>
            getattr in_args ''hidden_units'' = Inr (PyInt 512)))"
proof (intro conjI impI)
  assume a: "get_input_args b argv = Inr in_args \<and>
    (\<forall>t\<in>set argv. \<not> selects (argument_parser b) t ''--hidden_units'')"
  then have "map_of in_args ''hidden_units'' =
      map_of (default_namespace (argument_parser b)) ''hidden_units''"
    using option_absent_keeps_default[of b argv in_args "''--hidden_units''" "''hidden_units''"]
    by simp
  then have g: "getattr in_args ''hidden_units'' = Inr (PyInt 512)"
    by (simp add: default_namespace_eq getattr_map_of)
  then show "getattr in_args ''hidden_units'' = Inr (PyInt 512)" .
  from g show "getattr in_args ''hidden_units'' \<noteq> Inr (PyInt 4096)" by simp
next
  assume "d = [] \<or> hd d \<noteq> CHR ''-''"
  then show "\<exists>in_args. get_input_args b [d] = Inr in_args \<and>
      getattr in_args ''hidden_units'' = Inr (PyInt 512)"
    using get_input_args_plain[of d b] by (simp add: getattr_def)
qed

theorem get_input_args_hidden_units_default_witness:
  "(\<exists>in_args. get_input_args plain_builtins [''flowers/'', ''--epochs'', ''20''] = Inr in_args \<and>
      list_all (\<lambda>t. \<not> selects (argument_parser plain_builtins) t ''--hidden_units'')
        [''flowers/'', ''--epochs'', ''20''] \<and>
      getattr in_args ''hidden_units'' = Inr (PyInt 512)) \<and>
   (\<exists>in_args. get_input_args plain_builtins [''flowers/''] = Inr in_args \<and>
      getattr in_args ''hidden_units'' = Inr (PyInt 512))"
proof -
  let ?argv = "[''flowers/'', ''--epochs'', ''20'']"
  have po: "parse_optional (argument_parser plain_builtins) ''--epochs'' =
     Inr (Some (Some (StoreAction \<lparr>arg_name = ''--epochs'', arg_type = type_int,
        arg_default = PyInt 5\<rparr>), ''--epochs'', None, None))"
    unfolding parse_optional_def option_string_actions_eq by simp
  have c: "classify (argument_parser plain_builtins) ?argv =
      Inr [Arg, Opt (Some (StoreAction \<lparr>arg_name = ''--epochs'', arg_type = type_int,
        arg_default = PyInt 5\<rparr>), ''--epochs'', None, None), Arg]"
    using parse_optional_plain[of "''flowers/''" "argument_parser plain_builtins"]
      parse_optional_plain[of "''20''" "argument_parser plain_builtins"]
    by (simp add: po)
  obtain ns where 1: "get_input_args plain_builtins ?argv = Inr ns"
    unfolding get_input_args_def parse_args_def c default_namespace_eq
    by (simp add: consume_step_def take_action_def get_values_def convert_def argument_parser_eq
        is_optional_def dest_def setitem_def plain_builtins_def
        convert_defaults_parser[unfolded argument_parser_eq])
  have l: "list_all (\<lambda>t. \<not> selects (argument_parser plain_builtins) t ''--hidden_units'') ?argv"
    using parse_optional_plain[of "''flowers/''" "argument_parser plain_builtins"]
      parse_optional_plain[of "''20''" "argument_parser plain_builtins"]
    by (simp add: selects_def po)
  then have h: "\<forall>t\<in>set ?argv. \<not> selects (argument_parser plain_builtins) t ''--hidden_units''"
    by (simp add: list_all_iff)
  note t = get_input_args_hidden_units_default[of plain_builtins _ _ "''flowers/''"]
  have g: "getattr ns ''hidden_units'' = Inr (PyInt 512)"
    using t[of ?argv ns, THEN conjunct1] 1 h by blast
  have p: "''flowers/'' = [] \<or> hd ''flowers/'' \<noteq> CHR ''-''"
    by simp
  have 2: "\<exists>in_args. get_input_args plain_builtins [''flowers/''] = Inr in_args \<and>
      getattr in_args ''hidden_units'' = Inr (PyInt 512)"
    using t[of "[]" "[]", THEN conjunct2, THEN mp, OF p] .
  show ?thesis using 1 l g 2 by blast
qed

section \<open>Properties of print_input_args\<close>

lemma lines_of_append:
  "CHR 0x0A \<notin> set l \<Longrightarrow>
   lines_of (l @ r) =
     (case lines_of r of [] \<Rightarrow> (if l = [] then [] else [l]) | x # xs \<Rightarrow> (l @ x) # xs)"
  by (induction l) (auto split: list.splits)

lemma print_input_args_text:
  assumes "getattr in_args ''data_dir'' = Inr v1" "getattr in_args ''arch'' = Inr v2"
    "getattr in_args ''save_dir'' = Inr v3" "getattr in_args ''learning_rate'' = Inr v4"
    "getattr in_args ''hidden_units'' = Inr v5" "getattr in_args ''epochs'' = Inr v6"
    "getattr in_args ''gpu'' = Inr v7"
  shows "print_input_args b in_args out = Inr (PyNone, out @
      CHR 0x0A # ''Command line arguments: '' @
      CHR 0x0A # ''    dir =  '' @ py_str b v1 @ '' '' @
      CHR 0x0A # ''    arch =  '' @ py_str b v2 @ '' '' @
      CHR 0x0A # ''    save_dir =  '' @ py_str b v3 @ '' '' @
      CHR 0x0A # ''    learning_rate =  '' @ py_str b v4 @ '' '' @
      CHR 0x0A # ''    hidden_units =  '' @ py_str b v5 @ '' '' @
      CHR 0x0A # ''    epochs =  '' @ py_str b v6 @ '' '' @
      CHR 0x0A # ''    gpu =  '' @ py_str b v7 @ '' '' @
      [CHR 0x0A, CHR 0x0A])"
  using assms by (simp add: print_input_args_def and_then_def py_print_def)

lemma lines_of_text:
  assumes "list_all (\<lambda>s. CHR 0x0A \<notin> set s) [s1, s2, s3, s4, s5, s6, s7]"
  shows "lines_of (
      CHR 0x0A # ''Command line arguments: '' @
      CHR 0x0A # ''    dir =  '' @ s1 @ '' '' @
      CHR 0x0A # ''    arch =  '' @ s2 @ '' '' @
      CHR 0x0A # ''    save_dir =  '' @ s3 @ '' '' @
      CHR 0x0A # ''    learning_rate =  '' @ s4 @ '' '' @
      CHR 0x0A # ''    hidden_units =  '' @ s5 @ '' '' @
      CHR 0x0A # ''    epochs =  '' @ s6 @ '' '' @
      CHR 0x0A # ''    gpu =  '' @ s7 @ '' '' @
      [CHR 0x0A, CHR 0x0A]) =
    [[], ''Command line arguments: '',
     ''    dir =  '' @ s1 @ '' '',
     ''    arch =  '' @ s2 @ '' '',
     ''    save_dir =  '' @ s3 @ '' '',
     ''    learning_rate =  '' @ s4 @ '' '',
     ''    hidden_units =  '' @ s5 @ '' '',
     ''    epochs =  '' @ s6 @ '' '',
     ''    gpu =  '' @ s7 @ '' '',
     []]"
  using assms by (simp add: lines_of_append)

lemma get_input_args_has_attr:
  assumes ok: "get_input_args b argv = Inr in_args"
    and k: "k \<in> set [''data_dir'', ''arch'', ''save_dir'', ''learning_rate'', ''hidden_units'',
      ''epochs'', ''gpu'']"
  shows "\<exists>v. getattr in_args k = Inr v"
proof -
  from ok have pa: "parse_args b (argument_parser b) argv = Inr in_args"
    by (simp add: get_input_args_def)
  have "map_of in_args k \<noteq> None"
  proof (rule parse_args_preserves[where Q = "\<lambda>x. x \<noteq> None" and k = k, OF pa])
    show "map_of (default_namespace (argument_parser b)) k \<noteq> None"
      using k by (auto simp: default_namespace_eq)
  qed simp_all
  then show ?thesis by (auto simp: getattr_def)
qed

lemma str_int_examples: "str_int 512 = ''512''" "str_int 5 = ''5''"
  by (simp_all add: str_int_def)

lemma example_args_parsed: "get_input_args plain_builtins [''flowers/''] = Inr example_args"
  using get_input_args_plain[of "''flowers/''" plain_builtins]
  by (simp add: example_args_def plain_builtins_def)

text \<open>
  Claim C9, as amended. Take a namespace that holds the seven attributes (every
  namespace that \<open>get_input_args\<close> returns does) and whose values are printed without a
  newline. Then \<open>print_input_args\<close> returns \<^verbatim>\<open>None\<close> and appends ten lines to the standard
  output: an empty line, the header, one line for each attribute in the order
  \<^verbatim>\<open>data_dir\<close>, \<^verbatim>\<open>arch\<close>, \<^verbatim>\<open>save_dir\<close>, \<^verbatim>\<open>learning_rate\<close>, \<^verbatim>\<open>hidden_units\<close>, \<^verbatim>\<open>epochs\<close>, \<^verbatim>\<open>gpu\<close>,
  and an empty line. The line of an attribute is four spaces, a label, the value
  between \<^verbatim>\<open> =  \<close> and a space; the label is the attribute's name, except that the
  line of \<^verbatim>\<open>data_dir\<close> is labelled \<^verbatim>\<open>dir\<close>.
\<close>

theorem print_input_args_lines:
  assumes "getattr in_args ''data_dir'' = Inr v1" "getattr in_args ''arch'' = Inr v2"
    "getattr in_args ''save_dir'' = Inr v3" "getattr in_args ''learning_rate'' = Inr v4"
    "getattr in_args ''hidden_units'' = Inr v5" "getattr in_args ''epochs'' = Inr v6"
    "getattr in_args ''gpu'' = Inr v7"
    and "list_all (\<lambda>v. CHR 0x0A \<notin> set (py_str b v)) [v1, v2, v3, v4, v5, v6, v7]"
  shows "(\<exists>text. print_input_args b in_args out = Inr (PyNone, out @ text) \<and>
      lines_of text =
        [[], ''Command line arguments: '',
         ''    dir =  '' @ py_str b v1 @ '' '',
         ''    arch =  '' @ py_str b v2 @ '' '',
         ''    save_dir =  '' @ py_str b v3 @ '' '',
         ''    learning_rate =  '' @ py_str b v4 @ '' '',
         ''    hidden_units =  '' @ py_str b v5 @ '' '',
         ''    epochs =  '' @ py_str b v6 @ '' '',
         ''    gpu =  '' @ py_str b v7 @ '' '',
         []] \<and>
      map label_of (lines_of text) =
        [[], ''Command'', ''dir'', ''arch'', ''save_dir'', ''learning_rate'', ''hidden_units'',
         ''epochs'', ''gpu'', []]) \<and>
    (get_input_args b argv = Inr parsed \<longrightarrow>
      list_all (\<lambda>k. \<exists>v. getattr parsed k = Inr v)
        [''data_dir'', ''arch'', ''save_dir'', ''learning_rate'', ''hidden_units'', ''epochs'',
         ''gpu''])"
proof (intro conjI impI)
  let ?text = "CHR 0x0A # ''Command line arguments: '' @
      CHR 0x0A # ''    dir =  '' @ py_str b v1 @ '' '' @
      CHR 0x0A # ''    arch =  '' @ py_str b v2 @ '' '' @
      CHR 0x0A # ''    save_dir =  '' @ py_str b v3 @ '' '' @
      CHR 0x0A # ''    learning_rate =  '' @ py_str b v4 @ '' '' @
      CHR 0x0A # ''    hidden_units =  '' @ py_str b v5 @ '' '' @
      CHR 0x0A # ''    epochs =  '' @ py_str b v6 @ '' '' @
      CHR 0x0A # ''    gpu =  '' @ py_str b v7 @ '' '' @
      [CHR 0x0A, CHR 0x0A]"
  have p: "print_input_args b in_args out = Inr (PyNone, out @ ?text)"
    by (rule print_input_args_text[OF assms(1-7)])
  have nl: "list_all (\<lambda>s. CHR 0x0A \<notin> set s)
      [py_str b v1, py_str b v2, py_str b v3, py_str b v4, py_str b v5, py_str b v6, py_str b v7]"
    using assms(8) by simp
  note l = lines_of_text[OF nl]
  have lab: "map label_of (lines_of ?text) =
        [[], ''Command'', ''dir'', ''arch'', ''save_dir'', ''learning_rate'', ''hidden_units'',
         ''epochs'', ''gpu'', []]"
    unfolding l by (simp add: label_of_def)
  show "\<exists>text. print_input_args b in_args out = Inr (PyNone, out @ text) \<and>
      lines_of text =
        [[], ''Command line arguments: '',
         ''    dir =  '' @ py_str b v1 @ '' '',
         ''    arch =  '' @ py_str b v2 @ '' '',
         ''    save_dir =  '' @ py_str b v3 @ '' '',
         ''    learning_rate =  '' @ py_str b v4 @ '' '',
         ''    hidden_units =  '' @ py_str b v5 @ '' '',
         ''    epochs =  '' @ py_str b v6 @ '' '',
         ''    gpu =  '' @ py_str b v7 @ '' '',
         []] \<and>
      map label_of (lines_of text) =
        [[], ''Command'', ''dir'', ''arch'', ''save_dir'', ''learning_rate'', ''hidden_units'',
         ''epochs'', ''gpu'', []]"
    using p l lab by (intro exI[of _ ?text] conjI)
next
  assume "get_input_args b argv = Inr parsed"
  from get_input_args_has_attr[OF this]
  show "list_all (\<lambda>k. \<exists>v. getattr parsed k = Inr v)
        [''data_dir'', ''arch'', ''save_dir'', ''learning_rate'', ''hidden_units'', ''epochs'',
         ''gpu'']"
    by simp
qed

theorem print_input_args_lines_witness:
  "get_input_args plain_builtins [''flowers/''] = Inr example_args \<and>
   (\<exists>text. print_input_args plain_builtins example_args [] = Inr (PyNone, text) \<and>
      lines_of text =
        [[], ''Command line arguments: '', ''    dir =  flowers/ '', ''    arch =  vgg11 '',
         ''    save_dir =  None '', ''    learning_rate =  0.001 '',
         ''    hidden_units =  512 '', ''    epochs =  5 '', ''    gpu =  True '', []])"
proof -
  have a: "getattr example_args ''data_dir'' = Inr (PyStr ''flowers/'')"
    "getattr example_args ''arch'' = Inr (PyStr ''vgg11'')"
    "getattr example_args ''save_dir'' = Inr PyNone"
    "getattr example_args ''learning_rate'' = Inr (PyFloat 0.001)"
    "getattr example_args ''hidden_units'' = Inr (PyInt 512)"
    "getattr example_args ''epochs'' = Inr (PyInt 5)"
    "getattr example_args ''gpu'' = Inr (PyBool True)"
    by (simp_all add: example_args_def getattr_def)
  have s: "py_str plain_builtins (PyStr ''flowers/'') = ''flowers/''"
    "py_str plain_builtins (PyStr ''vgg11'') = ''vgg11''"
    "py_str plain_builtins PyNone = ''None''"
    "py_str plain_builtins (PyFloat 0.001) = ''0.001''"
    "py_str plain_builtins (PyInt 512) = ''512''"
    "py_str plain_builtins (PyInt 5) = ''5''"
    "py_str plain_builtins (PyBool True) = ''True''"
    by (simp_all add: py_str_def plain_builtins_def str_int_examples)
  have n: "list_all (\<lambda>v. CHR 0x0A \<notin> set (py_str plain_builtins v))
      [PyStr ''flowers/'', PyStr ''vgg11'', PyNone, PyFloat 0.001, PyInt 512, PyInt 5,
       PyBool True]"
    unfolding list.pred_inject s by simp
  from print_input_args_lines[OF a n, of "[]" "[]" "[]", THEN conjunct1]
  have "\<exists>text. print_input_args plain_builtins example_args [] = Inr (PyNone, text) \<and>
      lines_of text =
        [[], ''Command line arguments: '', ''    dir =  flowers/ '', ''    arch =  vgg11 '',
         ''    save_dir =  None '', ''    learning_rate =  0.001 '',
         ''    hidden_units =  512 '', ''    epochs =  5 '', ''    gpu =  True '', []]"
    unfolding s by (simp; blast)
  with example_args_parsed show ?thesis by (rule conjI)
qed

text \<open>
  Claim C9 as stated fails at two inputs. For the command line \<^verbatim>\<open>flowers/\<close> the line of
  the attribute \<^verbatim>\<open>data_dir\<close> is \<^verbatim>\<open>    dir =  flowers/ \<close>: its label is \<^verbatim>\<open>dir\<close>, and no line
  of the output starts with the name \<^verbatim>\<open>data_dir\<close>. For a data directory whose name holds
  a newline the attribute takes two lines of the output.
\<close>

theorem print_input_args_label_counterexample:
  "get_input_args plain_builtins [''flowers/''] = Inr example_args \<and>
   print_input_args plain_builtins example_args [] =
     Inr (PyNone, ''\<newline>Command line arguments: \<newline>    dir =  flowers/ \<newline>    arch =  vgg11 \<newline>    save_dir =  None \<newline>    learning_rate =  0.001 \<newline>    hidden_units =  512 \<newline>    epochs =  5 \<newline>    gpu =  True \<newline>\<newline>'') \<and>
   lines_of ''\<newline>Command line arguments: \<newline>    dir =  flowers/ \<newline>    arch =  vgg11 \<newline>    save_dir =  None \<newline>    learning_rate =  0.001 \<newline>    hidden_units =  512 \<newline>    epochs =  5 \<newline>    gpu =  True \<newline>\<newline>'' =
     [[], ''Command line arguments: '', ''    dir =  flowers/ '', ''    arch =  vgg11 '',
      ''    save_dir =  None '', ''    learning_rate =  0.001 '',
      ''    hidden_units =  512 '', ''    epochs =  5 '', ''    gpu =  True '', []] \<and>
   get_input_args plain_builtins [''a\<newline>b''] =
     Inr (setitem ''data_dir'' (PyStr ''a\<newline>b'') example_args) \<and>
   print_input_args plain_builtins (setitem ''data_dir'' (PyStr ''a\<newline>b'') example_args) [] =
     Inr (PyNone, ''\<newline>Command line arguments: \<newline>    dir =  a\<newline>b \<newline>    arch =  vgg11 \<newline>    save_dir =  None \<newline>    learning_rate =  0.001 \<newline>    hidden_units =  512 \<newline>    epochs =  5 \<newline>    gpu =  True \<newline>\<newline>'') \<and>
   lines_of ''\<newline>Command line arguments: \<newline>    dir =  a\<newline>b \<newline>    arch =  vgg11 \<newline>    save_dir =  None \<newline>    learning_rate =  0.001 \<newline>    hidden_units =  512 \<newline>    epochs =  5 \<newline>    gpu =  True \<newline>\<newline>'' =
     [[], ''Command line arguments: '', ''    dir =  a'', ''b '', ''    arch =  vgg11 '',
      ''    save_dir =  None '', ''    learning_rate =  0.001 '',
      ''    hidden_units =  512 '', ''    epochs =  5 '', ''    gpu =  True '', []]"
proof (intro conjI)
  show "get_input_args plain_builtins [''flowers/''] = Inr example_args"
    by (rule example_args_parsed)
  show "get_input_args plain_builtins [''a\<newline>b''] =
     Inr (setitem ''data_dir'' (PyStr ''a\<newline>b'') example_args)"
    using get_input_args_plain[of "''a\<newline>b''" plain_builtins]
    by (simp add: example_args_def plain_builtins_def setitem_def)
qed (simp_all add: print_input_args_def and_then_def py_print_def getattr_def example_args_def
    setitem_def py_str_def plain_builtins_def str_int_examples)

end
